theory Spec2Isabelle
  imports Main "HOL-Library.Word"
begin

unbundle bit_operations_syntax

section \<open>Python values, errors and text\<close>

text \<open>
  The fragment of Python's value universe that the field code inspects: \<open>None\<close>, integers,
  strings, lists and tuples. HOL equality on this type is Python's \<open>==\<close> (there are no
  floats or booleans in it, so no two distinct values compare equal). Objects built by
  external libraries (netaddr, bitstring) are kept in type variables.
\<close>

datatype pyval =
    PNone
  | PInt int
  | PStr string
  | PList "pyval list"
  | PTuple "pyval list"

datatype error =
    ValueError string
  | TypeError string
  | BinasciiError string
  | BuildError string

text \<open>
  A field's call takes \<open>value=Field.empty\<close>; \<open>Empty\<close> is that sentinel, \<open>Given v\<close> any
  other argument (also \<open>None\<close>). The same type serves for the \<open>value\<close> slot of a field.
\<close>

datatype 'a arg = Empty | Given 'a

subsection \<open>\<open>str\<close> and \<open>repr\<close>\<close>

fun index_of :: "'a \<Rightarrow> 'a list \<Rightarrow> nat option" where
  "index_of x [] = None"
| "index_of x (y # ys) = (if x = y then Some 0 else map_option Suc (index_of x ys))"

definition digit_char :: "nat \<Rightarrow> char" where
  "digit_char n = ''0123456789abcdef'' ! n"

fun dec_digits :: "nat \<Rightarrow> string" where
  "dec_digits n =
     (if n < 10 then [digit_char n] else dec_digits (n div 10) @ [digit_char (n mod 10)])"

declare dec_digits.simps [simp del]

definition str_int :: "int \<Rightarrow> string" where
  "str_int i = (if i < 0 then CHR ''-'' # dec_digits (nat (- i)) else dec_digits (nat i))"

fun join :: "string \<Rightarrow> string list \<Rightarrow> string" where
  "join sep [] = []"
| "join sep [x] = x"
| "join sep (x # y # ys) = x @ sep @ join sep (y # ys)"

text \<open>
  \<open>repr\<close> of a \<open>str\<close>: single quotes unless the text holds a single quote and no double
  quote; backslash, the chosen quote, tab, newline and carriage return are escaped, other
  non-printable characters are written \<open>\xNN\<close>. Characters are the code points 0 to 255.
\<close>

definition printable :: "char \<Rightarrow> bool" where
  "printable c =
     (let n = (of_char c :: nat)
      in 32 \<le> n \<and> n \<noteq> 127 \<and> \<not> (128 \<le> n \<and> n \<le> 160) \<and> n \<noteq> 173)"

definition repr_char :: "char \<Rightarrow> char \<Rightarrow> string" where
  "repr_char q c =
     (if c = CHR 0x5C then [CHR 0x5C, CHR 0x5C]
      else if c = q then [CHR 0x5C, q]
      else if c = CHR 0x09 then [CHR 0x5C, CHR ''t'']
      else if c = CHR 0x0A then [CHR 0x5C, CHR ''n'']
      else if c = CHR 0x0D then [CHR 0x5C, CHR ''r'']
      else if printable c then [c]
      else [CHR 0x5C, CHR ''x'', digit_char (of_char c div 16), digit_char (of_char c mod 16)])"

definition repr_str :: "string \<Rightarrow> string" where
  "repr_str s =
     (let q = (if CHR 0x27 \<in> set s \<and> CHR 0x22 \<notin> set s then CHR 0x22 else CHR 0x27)
      in q # concat (map (repr_char q) s) @ [q])"

fun py_repr :: "pyval \<Rightarrow> string" where
  "py_repr PNone = ''None''"
| "py_repr (PInt i) = str_int i"
| "py_repr (PStr s) = repr_str s"
| "py_repr (PList xs) = ''['' @ join '', '' (map py_repr xs) @ '']''"
| "py_repr (PTuple xs) =
     (case xs of
        [x] \<Rightarrow> ''('' @ py_repr x @ '',)''
      | _ \<Rightarrow> ''('' @ join '', '' (map py_repr xs) @ '')'')"

definition py_str :: "pyval \<Rightarrow> string" where
  "py_str v = (case v of PStr s \<Rightarrow> s | _ \<Rightarrow> py_repr v)"

section \<open>OneOf / Enum\<close>

text \<open>
  \<open>OneOf\<close> of \<^verbatim>\<open>cargo/fields/sequence.py\<close>. The record holds the slots the code below reads
  or writes. \<open>OneOf.__call__\<close> of \<^verbatim>\<open>bloom/fields/sequence.py\<close> is the same text.
\<close>

record oneof =
  types :: "pyval list"
  oneof_value :: "pyval arg"
  oneof_type_name :: "string option"
  oneof_table :: "string option"
  oneof_field_name :: "string option"
  type_oid :: "int option"
  type_array_oid :: "int option"

definition OneOf_error :: "pyval \<Rightarrow> pyval list \<Rightarrow> string" where
  \<comment> \<open>\<^verbatim>\<open>"`{}` not in {}".format(value, self.types)\<close>\<close>
  "OneOf_error v ts = [CHR 0x60] @ py_str v @ [CHR 0x60] @ '' not in '' @ py_str (PTuple ts)"

definition OneOf_call :: "oneof \<Rightarrow> pyval arg \<Rightarrow> error + (oneof \<times> pyval arg)" where
  "OneOf_call f a =
     (case a of
        Empty \<Rightarrow> Inr (f, oneof_value f)
      | Given v \<Rightarrow>
          if v = PNone \<or> v \<in> set (types f)
          then Inr (f\<lparr>oneof_value := Given v\<rparr>, Given v)
          else Inl (ValueError (OneOf_error v (types f))))"

section \<open>Network address fields\<close>

text \<open>
  A request object as \<open>IP.request_ip\<close> probes it: \<open>remote_addr\<close> and \<open>META\<close> are attributes
  that may be absent (\<open>hasattr\<close>), \<open>META\<close> a dictionary of strings.
\<close>

record request =
  remote_addr :: "pyval option"
  META :: "(string \<rightharpoonup> string) option"

record 'n ip =
  ip_request :: "request option"
  ip_value :: "'n option arg"

definition is_space :: "char \<Rightarrow> bool" where
  "is_space c = ((of_char c :: nat) \<in> {9, 10, 11, 12, 13, 28, 29, 30, 31, 32, 133, 160})"

definition strip :: "string \<Rightarrow> string" where
  "strip s = rev (dropWhile is_space (rev (dropWhile is_space s)))"

fun last_segment :: "string \<Rightarrow> string \<Rightarrow> string" where
  \<comment> \<open>\<^verbatim>\<open>s.split(',')[-1]\<close>, the text after the last comma\<close>
  "last_segment acc [] = acc"
| "last_segment acc (c # cs) = (if c = CHR '','' then last_segment [] cs else last_segment (acc @ [c]) cs)"

definition request_ip :: "'n ip \<Rightarrow> pyval" where
  "request_ip f =
     (case ip_request f of
        None \<Rightarrow> PNone
      | Some r \<Rightarrow>
          (case remote_addr r of
             Some a \<Rightarrow> a
           | None \<Rightarrow>
               (case META r of
                  Some m \<Rightarrow>
                    (case m ''HTTP_X_FORWARDED_FOR'' of
                       Some x \<Rightarrow>
                         if x \<noteq> [] then PStr (strip (last_segment [] x))
                         else (case m ''REMOTE_ADDR'' of Some y \<Rightarrow> PStr y | None \<Rightarrow> PNone)
                     | None \<Rightarrow> (case m ''REMOTE_ADDR'' of Some y \<Rightarrow> PStr y | None \<Rightarrow> PNone))
                | None \<Rightarrow> PNone)))"

text \<open>
  \<open>IP.__call__\<close>; \<open>IP.current\<close> is \<open>-1\<close>. \<open>IPAddress\<close> is netaddr's constructor, a parameter
  that may raise.
\<close>

definition IP_current :: pyval where
  "IP_current = PInt (- 1)"

definition IP_call ::
  "(pyval \<Rightarrow> error + 'n) \<Rightarrow> 'n ip \<Rightarrow> pyval arg \<Rightarrow> error + ('n ip \<times> 'n option arg)" where
  "IP_call IPAddress f a =
     (case a of
        Empty \<Rightarrow> Inr (f, ip_value f)
      | Given v0 \<Rightarrow>
          (let v = (if v0 = IP_current then request_ip f else v0)
           in if v \<noteq> PNone
              then (case IPAddress v of
                      Inl e \<Rightarrow> Inl e
                    | Inr n \<Rightarrow> Inr (f\<lparr>ip_value := Given (Some n)\<rparr>, Given (Some n)))
              else Inr (f\<lparr>ip_value := Given None\<rparr>, Given None)))"

section \<open>Array\<close>

text \<open>
  What \<open>_cast\<close> returns: normalised elements in nested lists. \<open>arraylist\<close> is the list
  subclass that carries the element type's name in \<open>__cargotype__\<close> (\<open>__bloomtype__\<close> in
  bloom); \<open>Lst\<close> is a plain \<open>list\<close>.
\<close>

datatype 'b cval =
    Leaf 'b
  | Lst "'b cval list"
  | ArrayList string "'b cval list"

text \<open>
  The Array field. \<open>atype\<close> is the call of the element field \<open>self.type(x)\<close>, which
  returns the normalised element or raises; \<open>atype_name\<close> is what \<open>_get_type_name()\<close>
  returns; \<open>leaf_iter\<close> iterates a normalised element (\<open>None\<close> when it is not iterable),
  which only \<open>extend\<close> with a scalar argument does.
\<close>

record 'b array =
  atype :: "pyval \<Rightarrow> error + 'b"
  atype_name :: string
  leaf_iter :: "'b \<Rightarrow> 'b list option"
  dimensions :: "int option"
  array_value :: "'b cval option arg"

definition py_iter :: "pyval \<Rightarrow> error + pyval list" where
  \<comment> \<open>\<^verbatim>\<open>for x in value\<close>\<close>
  "py_iter v =
     (case v of
        PList xs \<Rightarrow> Inr xs
      | PTuple xs \<Rightarrow> Inr xs
      | PStr s \<Rightarrow> Inr (map (\<lambda>c. PStr [c]) s)
      | PInt i \<Rightarrow> Inl (TypeError (CHR 0x27 # ''int'' @ CHR 0x27 # '' object is not iterable''))
      | PNone \<Rightarrow> Inl (TypeError (CHR 0x27 # ''NoneType'' @ CHR 0x27 # '' object is not iterable'')))"

definition dims_exceeded :: "int option \<Rightarrow> int \<Rightarrow> bool" where
  \<comment> \<open>\<^verbatim>\<open>self.dimensions and dimension > self.dimensions\<close>: \<open>None\<close> and \<open>0\<close> are falsy\<close>
  "dims_exceeded dims d = (case dims of None \<Rightarrow> False | Some n \<Rightarrow> n \<noteq> 0 \<and> d > n)"

definition repr_dims :: "int option \<Rightarrow> string" where
  "repr_dims dims = (case dims of None \<Rightarrow> ''None'' | Some n \<Rightarrow> str_int n)"

definition dims_error :: "int \<Rightarrow> int option \<Rightarrow> error" where
  \<comment> \<open>\<^verbatim>\<open>'Invalid dimensions ({}): max depth is set to {}'.format(dimension, repr(self.dimensions))\<close>\<close>
  "dims_error d dims =
     ValueError (''Invalid dimensions ('' @ str_int d @ ''): max depth is set to '' @ repr_dims dims)"

definition wrap_arr :: "'b array \<Rightarrow> int \<Rightarrow> 'b cval list \<Rightarrow> 'b cval" where
  \<comment> \<open>the two \<open>return\<close>s of cargo's \<open>_cast\<close>\<close>
  "wrap_arr f d r = (if d > 1 then Lst r else ArrayList (atype_name f) r)"

text \<open>
  cargo's \<open>Array._cast\<close>. The generator over \<open>value\<close> is consumed at once by \<open>list\<close>, so
  the items are normalised left to right and the first exception ends the walk.
  \<open>cast_list\<close> is \<open>_cast\<close> on a \<open>list\<close> (the only values it recurses into), \<open>cast_items\<close>
  the generator's items at \<open>next_dimension\<close>; \<open>cast\<close> is \<open>_cast\<close> on any value.
\<close>

fun cast_items :: "'b array \<Rightarrow> pyval list \<Rightarrow> int \<Rightarrow> error + 'b cval list"
  and cast_list :: "'b array \<Rightarrow> pyval list \<Rightarrow> int \<Rightarrow> error + 'b cval" where
  "cast_items f [] nd = Inr []"
| "cast_items f (x # xs) nd =
     (case (case x of PList ys \<Rightarrow> cast_list f ys nd | _ \<Rightarrow> map_sum id Leaf (atype f x)) of
        Inl e \<Rightarrow> Inl e
      | Inr y \<Rightarrow> (case cast_items f xs nd of Inl e \<Rightarrow> Inl e | Inr r \<Rightarrow> Inr (y # r)))"
| "cast_list f ys d =
     (if dims_exceeded (dimensions f) d then Inl (dims_error d (dimensions f))
      else (case cast_items f ys (d + 1) of Inl e \<Rightarrow> Inl e | Inr r \<Rightarrow> Inr (wrap_arr f d r)))"

definition cast :: "'b array \<Rightarrow> pyval \<Rightarrow> int \<Rightarrow> error + 'b cval" where
  "cast f v d =
     (if dims_exceeded (dimensions f) d then Inl (dims_error d (dimensions f))
      else (case py_iter v of
              Inl e \<Rightarrow> Inl e
            | Inr xs \<Rightarrow>
                (case cast_items f xs (d + 1) of Inl e \<Rightarrow> Inl e | Inr r \<Rightarrow> Inr (wrap_arr f d r))))"

definition Array_call :: "'b array \<Rightarrow> pyval arg \<Rightarrow> error + ('b array \<times> 'b cval option arg)" where
  "Array_call f a =
     (case a of
        Empty \<Rightarrow> Inr (f, array_value f)
      | Given v \<Rightarrow>
          if v \<noteq> PNone
          then (case cast f v 1 of
                  Inl e \<Rightarrow> Inl e
                | Inr r \<Rightarrow> Inr (f\<lparr>array_value := Given (Some r)\<rparr>, Given (Some r)))
          else Inr (f\<lparr>array_value := Given None\<rparr>, Given None))"












subsection \<open>bloom's Array\<close>

text \<open>
  bloom's \<open>Array._cast\<close>: the bound is compared without the truthiness guard (comparing
  an \<open>int\<close> with \<open>None\<close> raises \<open>TypeError\<close>), and every level is an \<open>arraylist\<close>.
\<close>

definition bloom_check :: "int option \<Rightarrow> int \<Rightarrow> error option" where
  "bloom_check dims d =
     (case dims of
        None \<Rightarrow> Some (TypeError ''unorderable types: int() > NoneType()'')
      | Some n \<Rightarrow> if d > n then Some (dims_error d dims) else None)"

fun bloom_cast_items :: "'b array \<Rightarrow> pyval list \<Rightarrow> int \<Rightarrow> error + 'b cval list"
  and bloom_cast_list :: "'b array \<Rightarrow> pyval list \<Rightarrow> int \<Rightarrow> error + 'b cval" where
  "bloom_cast_items f [] nd = Inr []"
| "bloom_cast_items f (x # xs) nd =
     (case (case x of PList ys \<Rightarrow> bloom_cast_list f ys nd | _ \<Rightarrow> map_sum id Leaf (atype f x)) of
        Inl e \<Rightarrow> Inl e
      | Inr y \<Rightarrow> (case bloom_cast_items f xs nd of Inl e \<Rightarrow> Inl e | Inr r \<Rightarrow> Inr (y # r)))"
| "bloom_cast_list f ys d =
     (case bloom_check (dimensions f) d of
        Some e \<Rightarrow> Inl e
      | None \<Rightarrow>
          (case bloom_cast_items f ys (d + 1) of
             Inl e \<Rightarrow> Inl e
           | Inr r \<Rightarrow> Inr (ArrayList (atype_name f) r)))"

definition bloom_cast :: "'b array \<Rightarrow> pyval \<Rightarrow> int \<Rightarrow> error + 'b cval" where
  "bloom_cast f v d =
     (case bloom_check (dimensions f) d of
        Some e \<Rightarrow> Inl e
      | None \<Rightarrow>
          (case py_iter v of
             Inl e \<Rightarrow> Inl e
           | Inr xs \<Rightarrow>
               (case bloom_cast_items f xs (d + 1) of
                  Inl e \<Rightarrow> Inl e
                | Inr r \<Rightarrow> Inr (ArrayList (atype_name f) r))))"

subsection \<open>Measures of a value\<close>

text \<open>
  The nesting depth of lists (a flat list has depth 1), and whether every element that
  is not a list is accepted by the element field.
\<close>

fun list_depth :: "pyval \<Rightarrow> nat"
  and items_depth :: "pyval list \<Rightarrow> nat" where
  "list_depth (PList ys) = Suc (items_depth ys)"
| "list_depth PNone = 0"
| "list_depth (PInt i) = 0"
| "list_depth (PStr s) = 0"
| "list_depth (PTuple ys) = 0"
| "items_depth [] = 0"
| "items_depth (x # xs) = max (list_depth x) (items_depth xs)"

fun items_ok :: "'b array \<Rightarrow> pyval list \<Rightarrow> bool" where
  "items_ok f [] = True"
| "items_ok f (x # xs) =
     ((case x of PList ys \<Rightarrow> items_ok f ys | _ \<Rightarrow> \<not> isl (atype f x)) \<and> items_ok f xs)"

fun plain :: "'b cval \<Rightarrow> 'b cval" where
  \<comment> \<open>the nested list without the subclass and its attribute: Python's \<open>==\<close> on lists
      compares the items only\<close>
  "plain (Leaf b) = Leaf b"
| "plain (Lst xs) = Lst (map plain xs)"
| "plain (ArrayList t xs) = Lst (map plain xs)"

subsection \<open>An element field for examples\<close>

text \<open>
  An element field that accepts every value as it is, and whose values are not iterable;
  it is used where a result is evaluated on a concrete Array.
\<close>

definition accept_all :: "pyval \<Rightarrow> error + pyval" where
  "accept_all v = Inr v"

definition not_iterable :: "pyval \<Rightarrow> pyval list option" where
  "not_iterable b = None"

definition example_array :: "int option \<Rightarrow> pyval array" where
  "example_array dims =
     \<lparr>atype = accept_all, atype_name = ''text'', leaf_iter = not_iterable,
      dimensions = dims, array_value = Empty\<rparr>"

section \<open>Bit, Cidr and MacAddress\<close>

text \<open>
  \<open>Bit.__call__\<close>, \<open>Cidr.__call__\<close> and \<open>MacAddress.__call__\<close>. The constructors
  \<open>BitArray\<close>, \<open>IPNetwork\<close> and \<open>EUI\<close> belong to external libraries and are parameters.
\<close>

record 'n field =
  field_value :: "'n option arg"

definition Bit_call ::
  "(pyval \<Rightarrow> error + 'n) \<Rightarrow> 'n field \<Rightarrow> pyval arg \<Rightarrow> error + ('n field \<times> 'n option arg)" where
  "Bit_call BitArray f a =
     (case a of
        Empty \<Rightarrow> Inr (f, field_value f)
      | Given v \<Rightarrow>
          if v \<noteq> PNone
          then (case BitArray v of
                  Inl e \<Rightarrow> Inl e
                | Inr n \<Rightarrow> Inr (f\<lparr>field_value := Given (Some n)\<rparr>, Given (Some n)))
          else Inr (f\<lparr>field_value := Given None\<rparr>, Given None))"

definition Cidr_call ::
  "(pyval \<Rightarrow> error + 'n) \<Rightarrow> 'n field \<Rightarrow> pyval arg \<Rightarrow> error + ('n field \<times> 'n option arg)" where
  "Cidr_call IPNetwork f a =
     (case a of
        Empty \<Rightarrow> Inr (f, field_value f)
      | Given v \<Rightarrow>
          if v \<noteq> PNone
          then (case IPNetwork v of
                  Inl e \<Rightarrow> Inl e
                | Inr n \<Rightarrow> Inr (f\<lparr>field_value := Given (Some n)\<rparr>, Given (Some n)))
          else Inr (f\<lparr>field_value := Given None\<rparr>, Given None))"

definition MacAddress_call ::
  "(pyval \<Rightarrow> error + 'n) \<Rightarrow> 'n field \<Rightarrow> pyval arg \<Rightarrow> error + ('n field \<times> 'n option arg)" where
  "MacAddress_call EUI f a =
     (case a of
        Empty \<Rightarrow> Inr (f, field_value f)
      | Given v \<Rightarrow>
          if v \<noteq> PNone
          then (case EUI v of
                  Inl e \<Rightarrow> Inl e
                | Inr n \<Rightarrow> Inr (f\<lparr>field_value := Given (Some n)\<rparr>, Given (Some n)))
          else Inr (f\<lparr>field_value := Given None\<rparr>, Given None))"

section \<open>bloom's date and time fields\<close>

text \<open>
  \<open>Time.__call__\<close> of \<^verbatim>\<open>bloom/fields/datetimes.py\<close>, which \<open>Date\<close> reuses and \<open>TimeTZ\<close>,
  \<open>Timestamp\<close> and \<open>TimestampTZ\<close> inherit. Its argument is an expression object, an
  \<open>arrow.Arrow\<close> or another Python value. \<open>dateparser.parse\<close> and \<open>_get_arrow\<close>
  (\<open>typ.fromdatetime(arrow.get(value))\<close>) call external libraries and are parameters;
  \<open>_get_arrow\<close> receives either the parsed date or the value as it was given.
\<close>

datatype ('x, 't) time_arg = TExpr 'x | TArrow 't | TPy pyval

datatype ('x, 't) time_val = VExpr 'x | VArrow 't | VNone

record ('x, 't) time_field =
  time_arrow :: "'t option"
  time_value :: "('x, 't) time_val arg"

definition set_value :: "('x, 't) time_field \<Rightarrow> ('x, 't) time_val \<Rightarrow> ('x, 't) time_field" where
  \<comment> \<open>Modelled from the spec: \<open>Field._set_value\<close> is defined in \<^verbatim>\<open>bloom/fields/field.py\<close>, which
      is not among the sources; by the spec's set contract the value handed over becomes
      the field's value.\<close>
  "set_value f v = f\<lparr>time_value := Given v\<rparr>"

definition Time_call ::
  "(string \<Rightarrow> error + 'd) \<Rightarrow> ('d + pyval \<Rightarrow> error + 't) \<Rightarrow> ('x, 't) time_field \<Rightarrow>
   ('x, 't) time_arg arg \<Rightarrow> error + (('x, 't) time_field \<times> ('x, 't) time_val arg)" where
  "Time_call dateparser_parse get_arrow f a =
     (case a of
        Empty \<Rightarrow> Inr (f, time_value f)
      | Given (TExpr x) \<Rightarrow>
          (let f' = set_value (f\<lparr>time_arrow := None\<rparr>) (VExpr x) in Inr (f', time_value f'))
      | Given (TArrow t) \<Rightarrow>
          (let f' = set_value (f\<lparr>time_arrow := Some t\<rparr>) (VArrow t) in Inr (f', time_value f'))
      | Given (TPy v) \<Rightarrow>
          (case (case v of PStr s \<Rightarrow> map_sum id Inl (dateparser_parse s) | _ \<Rightarrow> Inr (Inr v)) of
             Inl e \<Rightarrow> Inl e
           | Inr d \<Rightarrow>
               (case get_arrow d of
                  Inl e \<Rightarrow> Inl e
                | Inr t \<Rightarrow>
                    (let f' = set_value (f\<lparr>time_arrow := Some t\<rparr>) (VArrow t)
                     in Inr (f', time_value f')))))"

section \<open>Registering an enumerated type\<close>

text \<open>
  The client and the driver's tables, as far as registration touches them. \<open>fetch\<close> is
  what the cursor returns for the query of \<open>get_type_OID\<close> (the \<open>oid\<close> column of the
  rows found for the two names, in the query's order); \<open>executed\<close> records each query
  sent; \<open>registry\<close> records the types registered with the driver; \<open>warnings\<close> the
  warnings emitted.
\<close>

record client =
  fetch :: "string \<times> string \<Rightarrow> int list"
  executed :: "(string \<times> string) list"
  registry :: "(string \<times> int option) list"
  warnings :: "string list"

definition get_type_OID :: "client \<Rightarrow> string \<Rightarrow> client \<times> int list" where
  \<comment> \<open>\<^verbatim>\<open>cur.execute(q, ('_%s' % typname, typname))\<close>, then \<^verbatim>\<open>tuple(r.oid for r in res)\<close>\<close>
  "get_type_OID db typname =
     (let names = (CHR ''_'' # typname, typname)
      in (db\<lparr>executed := executed db @ [names]\<rparr>, fetch db names))"

definition or_empty :: "string option \<Rightarrow> string" where
  \<comment> \<open>\<^verbatim>\<open>x or ""\<close>\<close>
  "or_empty x = (case x of None \<Rightarrow> [] | Some s \<Rightarrow> s)"

definition type_name :: "oneof \<Rightarrow> string" where
  \<comment> \<open>\<^verbatim>\<open>self._type_name or '%s_%s_enumtype' % (self.table or "", self.field_name or "")\<close>\<close>
  "type_name f =
     (if oneof_type_name f \<noteq> None \<and> oneof_type_name f \<noteq> Some []
      then or_empty (oneof_type_name f)
      else or_empty (oneof_table f) @ ''_'' @ or_empty (oneof_field_name f) @ ''_enumtype'')"

definition upper_char :: "char \<Rightarrow> char" where
  \<comment> \<open>\<open>str.upper\<close> on ASCII text\<close>
  "upper_char c =
     (case index_of c ''abcdefghijklmnopqrstuvwxyz'' of
        Some i \<Rightarrow> ''ABCDEFGHIJKLMNOPQRSTUVWXYZ'' ! i
      | None \<Rightarrow> c)"

definition upper :: "string \<Rightarrow> string" where
  "upper s = map upper_char s"

text \<open>
  \<open>_register_oid\<close>. The second component of the result is the exception raised, if any:
  unpacking the tuple into two names raises \<open>ValueError\<close> unless it has exactly two
  items, and leaves both slots as they were; the query has been sent by then.
\<close>

definition register_oid :: "oneof \<Rightarrow> client \<Rightarrow> (oneof \<times> client) \<times> error option" where
  "register_oid f db =
     (if type_oid f = None \<and> type_array_oid f = None
      then (let (db', OIDs) = get_type_OID db (type_name f)
            in case OIDs of
                 [a, b] \<Rightarrow> ((f\<lparr>type_oid := Some a, type_array_oid := Some b\<rparr>, db'), None)
               | [] \<Rightarrow> ((f, db'), Some (ValueError ''not enough values to unpack (expected 2, got 0)''))
               | [a] \<Rightarrow> ((f, db'), Some (ValueError ''not enough values to unpack (expected 2, got 1)''))
               | _ \<Rightarrow> ((f, db'), Some (ValueError ''too many values to unpack (expected 2)'')))
      else ((f, db), None))"

definition reg_type :: "string \<Rightarrow> int option \<Rightarrow> client \<Rightarrow> client" where
  \<comment> \<open>Modelled from the spec: \<open>reg_type\<close> and \<open>reg_array_type\<close> are defined in
      \<^verbatim>\<open>cargo/etc/types.py\<close>, which is not among the sources; by the spec, registering enters the
      type identifier in the process-wide table and re-registering is never an error.\<close>
  "reg_type name oid db = db\<lparr>registry := registry db @ [(name, oid)]\<rparr>"

definition register_type :: "oneof \<Rightarrow> client \<Rightarrow> (oneof \<times> client) \<times> error option" where
  "register_type f db =
     (case register_oid f db of
        ((f', db'), None) \<Rightarrow>
          (let db1 = reg_type (upper (type_name f')) (type_oid f') db';
               db2 = reg_type (upper (type_name f') @ ''ARRAY'') (type_array_oid f') db1
           in ((f', db2), None))
      | ((f', db'), Some (ValueError m)) \<Rightarrow>
          ((f', db'\<lparr>warnings := warnings db' @
               [''Type '' @ [CHR 0x60] @ type_name f' @ [CHR 0x60] @ '' not found in the database.'']\<rparr>),
           None)
      | ((f', db'), Some e) \<Rightarrow> ((f', db'), Some e))"

definition no_types :: "string \<times> string \<Rightarrow> int list" where
  \<comment> \<open>a database without the type: the query finds no row\<close>
  "no_types names = []"

definition pet_field :: oneof where
  "pet_field =
     \<lparr>types = [PStr ''cat'', PStr ''dog'', PStr ''mouse''], oneof_value = Empty,
      oneof_type_name = Some ''pet'', oneof_table = None, oneof_field_name = None,
      type_oid = None, type_array_oid = None\<rparr>"

definition empty_client :: client where
  "empty_client = \<lparr>fetch = no_types, executed = [], registry = [], warnings = []\<rparr>"

section \<open>bloom's Binary codec\<close>

text \<open>
  Base64 is Python's standard library (\<open>base64.b64encode\<close>, \<open>base64.b64decode\<close> over
  \<open>binascii\<close>). \<open>b64encode\<close> is the standard encoding with padding, three bytes to four
  characters; \<open>a2b_base64\<close> is the loop of \<open>binascii.a2b_base64\<close> in its default mode,
  which skips bytes outside the alphabet, stops at a complete padding, and raises
  \<open>binascii.Error\<close> when the data ends inside a quad.
\<close>

type_synonym byte = "8 word"

definition b64_alphabet :: string where
  "b64_alphabet = ''ABCDEFGHIJKLMNOPQRSTUVWXYZabcdefghijklmnopqrstuvwxyz0123456789+/''"

definition BASE64_PAD :: byte where
  "BASE64_PAD = of_char (CHR ''='')"

definition table_b2a_base64 :: "byte \<Rightarrow> byte" where
  "table_b2a_base64 s = of_char (b64_alphabet ! unat s)"

definition table_a2b_base64 :: "byte \<Rightarrow> byte option" where
  "table_a2b_base64 c = map_option of_nat (index_of c (map of_char b64_alphabet))"

fun b64encode :: "byte list \<Rightarrow> byte list" where
  "b64encode [] = []"
| "b64encode [a] =
     [table_b2a_base64 (drop_bit 2 a), table_b2a_base64 (push_bit 4 (a AND 3)),
      BASE64_PAD, BASE64_PAD]"
| "b64encode [a, b] =
     [table_b2a_base64 (drop_bit 2 a), table_b2a_base64 (push_bit 4 (a AND 3) OR drop_bit 4 b),
      table_b2a_base64 (push_bit 2 (b AND 15)), BASE64_PAD]"
| "b64encode (a # b # c # rest) =
     [table_b2a_base64 (drop_bit 2 a), table_b2a_base64 (push_bit 4 (a AND 3) OR drop_bit 4 b),
      table_b2a_base64 (push_bit 2 (b AND 15) OR drop_bit 6 c), table_b2a_base64 (c AND 63)]
     @ b64encode rest"

fun a2b_base64 :: "byte list \<Rightarrow> nat \<Rightarrow> byte \<Rightarrow> nat \<Rightarrow> byte list \<Rightarrow> error + byte list" where
  "a2b_base64 [] quad_pos leftchar pads bin =
     (if quad_pos \<noteq> 0
      then (if quad_pos = 1
            then Inl (BinasciiError ''Invalid base64-encoded string'')
            else Inl (BinasciiError ''Incorrect padding''))
      else Inr bin)"
| "a2b_base64 (this_ch # rest) quad_pos leftchar pads bin =
     (if this_ch = BASE64_PAD
      then (if quad_pos \<ge> 2 \<and> quad_pos + (pads + 1) \<ge> 4 then Inr bin
            else a2b_base64 rest quad_pos leftchar (if quad_pos \<ge> 2 then pads + 1 else pads) bin)
      else (case table_a2b_base64 this_ch of
              None \<Rightarrow> a2b_base64 rest quad_pos leftchar pads bin
            | Some v \<Rightarrow>
                if quad_pos = 0 then a2b_base64 rest 1 v 0 bin
                else if quad_pos = 1
                  then a2b_base64 rest 2 (v AND 15) 0 (bin @ [push_bit 2 leftchar OR drop_bit 4 v])
                else if quad_pos = 2
                  then a2b_base64 rest 3 (v AND 3) 0 (bin @ [push_bit 4 leftchar OR drop_bit 2 v])
                else a2b_base64 rest 0 0 0 (bin @ [push_bit 6 leftchar OR v])))"

definition b64decode :: "byte list option \<Rightarrow> error + byte list" where
  \<comment> \<open>\<open>None\<close> is not bytes-like: \<open>TypeError\<close>\<close>
  "b64decode s =
     (case s of
        None \<Rightarrow> Inl (TypeError ''argument should be a bytes-like object or ASCII string'')
      | Some bs \<Rightarrow> a2b_base64 bs 0 0 0 [])"

text \<open>
  \<open>bloombytes.to_db\<close> and \<open>Binary.to_python\<close>. \<open>Binary\<close> is psycopg2's wrapper that
  escapes its bytes for the server; \<open>BINARY\<close> is psycopg2's typecaster from a wire value
  to the bytes stored (\<open>None\<close> for SQL NULL), a parameter.
\<close>

datatype adapted = Binary "byte list"

definition to_db :: "byte list \<Rightarrow> adapted" where
  "to_db v = Binary (b64encode v)"

definition to_python :: "('w \<Rightarrow> byte list option) \<Rightarrow> 'w \<Rightarrow> error + byte list option" where
  "to_python BINARY w =
     (case b64decode (BINARY w) of
        Inr v \<Rightarrow> Inr (Some v)
      | Inl (TypeError m) \<Rightarrow> Inr (BINARY w)
      | Inl (BinasciiError m) \<Rightarrow> Inr (BINARY w)
      | Inl e \<Rightarrow> Inl e)"

section \<open>The expression tree and its compiler\<close>

text \<open>
  The module \<^verbatim>\<open>cargo/expressions.py\<close> (\<open>Expression\<close>, \<open>Clause\<close>, \<open>Function\<close>, \<open>Case\<close>,
  \<open>safe\<close>) is not among the sources; only its callers and the tests of \<open>Case\<close> are. The
  definitions of this section follow the specification's description of the tree and
  of the compilation algorithm.
\<close>

datatype node =
    Literal pyval
  | Safe string
  | FieldRef "string option" string "pyval option"
  | Expression node string node "string option" bool
  | Function string "node option" "string option"
  | Clause string "node list"
  | Case "(node \<times> node) list" "node option" "string option" bool

definition field_text :: "bool \<Rightarrow> string option \<Rightarrow> string \<Rightarrow> string" where
  \<comment> \<open>Modelled from the spec: the rendering of a Field operand in \<^verbatim>\<open>cargo/expressions.py\<close>,
      \<open>table.column\<close>, or just \<open>column\<close> in bare-name mode (or when no table is bound).\<close>
  "field_text bare table column =
     (if bare then column
      else (case table of None \<Rightarrow> column | Some t \<Rightarrow> t @ ''.'' @ column))"

definition with_alias :: "bool \<Rightarrow> string option \<Rightarrow> string \<Rightarrow> string" where
  \<comment> \<open>Modelled from the spec: alias rendering in \<^verbatim>\<open>cargo/expressions.py\<close>; the alias is a
      trailing identifier after the node's own text, and a node used as an operand
      elsewhere (\<open>root\<close> false) renders without it.\<close>
  "with_alias root alias s =
     (case alias of None \<Rightarrow> s | Some a \<Rightarrow> if root then s @ '' '' @ a else s)"

definition paren :: "bool \<Rightarrow> string \<Rightarrow> string" where
  \<comment> \<open>Modelled from the spec: the grouped flag of \<open>Expression\<close> in \<^verbatim>\<open>cargo/expressions.py\<close>
      wraps the text in parentheses.\<close>
  "paren grouped s = (if grouped then ''('' @ s @ '')'' else s)"

function (sequential) compile :: "bool \<Rightarrow> bool \<Rightarrow> node \<Rightarrow> error + (string \<times> pyval list)"
  and compile_children :: "bool \<Rightarrow> node list \<Rightarrow> error + (string \<times> pyval list)"
  and compile_whens :: "bool \<Rightarrow> bool \<Rightarrow> (node \<times> node) list \<Rightarrow> error + (string \<times> pyval list)" where
  \<comment> \<open>Modelled from the spec: the compilation algorithm of \<^verbatim>\<open>cargo/expressions.py\<close>, rules 1 to 7
      of the specification. \<open>compile bare root n\<close> gives \<open>.string\<close> and \<open>.params\<close> of \<open>n\<close>;
      \<open>bare\<close> is the bare-field-name mode, \<open>root\<close> says that \<open>n\<close> is not nested in another
      node. A Field without a value renders as its name and has no parameter, one
      with a value as a placeholder with that value; a literal is a placeholder and one
      parameter; safe text is verbatim; parameters are concatenated left to right; a
      Case with neither branch nor else is a \<open>BuildError\<close>.\<close>
  "compile bare root (Literal v) = Inr (''%s'', [v])"
| "compile bare root (Safe s) = Inr (s, [])"
| "compile bare root (FieldRef table column v) =
     (case v of None \<Rightarrow> Inr (field_text bare table column, []) | Some x \<Rightarrow> Inr (''%s'', [x]))"
| "compile bare root (Expression l oper r alias grouped) =
     (case compile bare False l of
        Inl e \<Rightarrow> Inl e
      | Inr (ls, lp) \<Rightarrow>
          (case compile bare False r of
             Inl e \<Rightarrow> Inl e
           | Inr (rs, rp) \<Rightarrow>
               Inr (with_alias root alias (paren grouped (ls @ '' '' @ oper @ '' '' @ rs)), lp @ rp)))"
| "compile bare root (Function name None alias) = Inr (with_alias root alias (name @ ''()''), [])"
| "compile bare root (Function name (Some a) alias) =
     (case compile bare False a of
        Inl e \<Rightarrow> Inl e
      | Inr (s, ps) \<Rightarrow> Inr (with_alias root alias (name @ ''('' @ s @ '')''), ps))"
| "compile bare root (Clause keyword children) =
     (case compile_children bare children of
        Inl e \<Rightarrow> Inl e
      | Inr (s, ps) \<Rightarrow> Inr (keyword @ s, ps))"
| "compile bare root (Case [] None alias use_field_name) =
     Inl (BuildError ''CASE requires a WHEN or an ELSE'')"
| "compile bare root (Case whens None alias use_field_name) =
     (case compile_whens (bare \<or> use_field_name) bare whens of
        Inl e \<Rightarrow> Inl e
      | Inr (ws, wp) \<Rightarrow> Inr (with_alias root alias (''CASE '' @ ws @ ''END''), wp))"
| "compile bare root (Case whens (Some d) alias use_field_name) =
     (case compile_whens (bare \<or> use_field_name) bare whens of
        Inl e \<Rightarrow> Inl e
      | Inr (ws, wp) \<Rightarrow>
          (case compile bare False d of
             Inl e \<Rightarrow> Inl e
           | Inr (ds, dp) \<Rightarrow>
               Inr (with_alias root alias (''CASE '' @ ws @ ''ELSE '' @ ds @ '' END''), wp @ dp)))"
| "compile_children bare [] = Inr ([], [])"
| "compile_children bare (c # cs) =
     (case compile bare False c of
        Inl e \<Rightarrow> Inl e
      | Inr (s, ps) \<Rightarrow>
          (case compile_children bare cs of
             Inl e \<Rightarrow> Inl e
           | Inr (r, rp) \<Rightarrow> Inr ('' '' @ s @ r, ps @ rp)))"
| "compile_whens cbare bare [] = Inr ([], [])"
| "compile_whens cbare bare ((c, r) # ws) =
     (case compile cbare False c of
        Inl e \<Rightarrow> Inl e
      | Inr (cs, cp) \<Rightarrow>
          (case compile bare False r of
             Inl e \<Rightarrow> Inl e
           | Inr (rs, rp) \<Rightarrow>
               (case compile_whens cbare bare ws of
                  Inl e \<Rightarrow> Inl e
                | Inr (s, ps) \<Rightarrow>
                    Inr (''WHEN '' @ cs @ '' THEN '' @ rs @ '' '' @ s, cp @ rp @ ps))))"
  by pat_completeness auto
termination
  by (relation "measure (case_sum (\<lambda>(bare, root, n). size n)
        (case_sum (\<lambda>(bare, ns). size_list size ns)
                  (\<lambda>(cbare, bare, ws). size_list (size_prod size size) ws)))")
     auto


function (sequential) subnodes :: "node \<Rightarrow> node list"
  and subnodes_list :: "node list \<Rightarrow> node list"
  and subnodes_whens :: "(node \<times> node) list \<Rightarrow> node list" where
  \<comment> \<open>a node and every node below it\<close>
  "subnodes (Literal v) = [Literal v]"
| "subnodes (Safe s) = [Safe s]"
| "subnodes (FieldRef t c v) = [FieldRef t c v]"
| "subnodes (Expression l oper r alias grouped) =
     Expression l oper r alias grouped # subnodes l @ subnodes r"
| "subnodes (Function name None alias) = [Function name None alias]"
| "subnodes (Function name (Some a) alias) = Function name (Some a) alias # subnodes a"
| "subnodes (Clause keyword children) = Clause keyword children # subnodes_list children"
| "subnodes (Case whens None alias ufn) = Case whens None alias ufn # subnodes_whens whens"
| "subnodes (Case whens (Some d) alias ufn) =
     Case whens (Some d) alias ufn # subnodes_whens whens @ subnodes d"
| "subnodes_list [] = []"
| "subnodes_list (c # cs) = subnodes c @ subnodes_list cs"
| "subnodes_whens [] = []"
| "subnodes_whens ((c, r) # ws) = subnodes c @ subnodes r @ subnodes_whens ws"
  by pat_completeness auto
termination
  by (relation "measure (case_sum size
        (case_sum (size_list size) (size_list (size_prod size size))))")
     auto






subsection \<open>The Case builder and the inlined rendering\<close>

record case_builder =
  cb_whens :: "(node \<times> node) list"
  cb_el :: "node option"
  cb_alias :: "string option"
  cb_use_field_name :: bool

definition Case_new :: "(node \<times> node) list \<Rightarrow> node option \<Rightarrow> string option \<Rightarrow> bool \<Rightarrow> case_builder" where
  \<comment> \<open>Modelled from the spec: the constructor of \<open>Case\<close> in \<^verbatim>\<open>cargo/expressions.py\<close>, called as in
      \<^verbatim>\<open>unit_tests/expressions/Case.py\<close> with condition/result pairs and the keywords \<open>el\<close>,
      \<open>alias\<close> and \<open>use_field_name\<close>.\<close>
  "Case_new pairs e alias ufn =
     \<lparr>cb_whens = pairs, cb_el = e, cb_alias = alias, cb_use_field_name = ufn\<rparr>"

definition Case_when :: "case_builder \<Rightarrow> (node \<times> node) list \<Rightarrow> case_builder" where
  \<comment> \<open>Modelled from the spec: \<open>Case.when\<close> of \<^verbatim>\<open>cargo/expressions.py\<close> appends condition/result
      pairs in call order.\<close>
  "Case_when cb pairs = cb\<lparr>cb_whens := cb_whens cb @ pairs\<rparr>"

definition Case_el :: "case_builder \<Rightarrow> node \<Rightarrow> case_builder" where
  \<comment> \<open>Modelled from the spec: \<open>Case.el\<close> of \<^verbatim>\<open>cargo/expressions.py\<close> sets the else branch; the
      last call wins.\<close>
  "Case_el cb e = cb\<lparr>cb_el := Some e\<rparr>"

definition case_node :: "case_builder \<Rightarrow> node" where
  "case_node cb = Case (cb_whens cb) (cb_el cb) (cb_alias cb) (cb_use_field_name cb)"

definition field_eq :: "string option \<Rightarrow> string \<Rightarrow> pyval \<Rightarrow> node" where
  \<comment> \<open>Modelled from the spec: \<open>field == literal\<close> on a Field without a value, which
      \<^verbatim>\<open>cargo/expressions.py\<close> turns into an \<open>Expression\<close> with the operator \<open>=\<close>.\<close>
  "field_eq table column v = Expression (FieldRef table column None) ''='' (Literal v) None False"

fun py_format :: "string \<Rightarrow> pyval list \<Rightarrow> error + string" where
  \<comment> \<open>Python's \<^verbatim>\<open>string % params\<close> for the conversions \<open>%s\<close> and \<open>%%\<close>\<close>
  "py_format [] [] = Inr []"
| "py_format [] (p # ps) = Inl (TypeError ''not all arguments converted during string formatting'')"
| "py_format [c] ps =
     (if c = CHR ''%'' then Inl (ValueError ''incomplete format'')
      else map_sum id ((#) c) (py_format [] ps))"
| "py_format (c # d # cs) ps =
     (if c = CHR ''%'' then
        (if d = CHR ''s'' then
           (case ps of
              [] \<Rightarrow> Inl (TypeError ''not enough arguments for format string'')
            | p # ps' \<Rightarrow> map_sum id ((@) (py_str p)) (py_format cs ps'))
         else if d = CHR ''%'' then map_sum id ((#) CHR ''%'') (py_format cs ps)
         else Inl (ValueError ''unsupported format character''))
      else map_sum id ((#) c) (py_format (d # cs) ps))"

definition mogrified :: "case_builder \<Rightarrow> error + string" where
  \<comment> \<open>\<^verbatim>\<open>case.string % case.params\<close>, as the test compares it\<close>
  "mogrified cb =
     (case compile False True (case_node cb) of
        Inl e \<Rightarrow> Inl e
      | Inr (s, ps) \<Rightarrow> py_format s ps)"

subsection \<open>An ideal transport for examples\<close>

text \<open>
  A typecaster that returns the bytes that were handed to \<open>Binary\<close>: a server that stores
  and returns them unchanged.
\<close>

definition stored :: "adapted \<Rightarrow> byte list option" where
  "stored a = (case a of Binary bs \<Rightarrow> Some bs)"

section \<open>Results\<close>

subsection \<open>Evaluation of the text functions\<close>

lemma dec_digits_small: "n < 10 \<Longrightarrow> dec_digits n = [digit_char n]"
  by (simp add: dec_digits.simps)

lemma repr_str_plain:
  "CHR 0x27 \<notin> set s \<Longrightarrow> \<forall>c\<in>set s. printable c \<and> c \<noteq> CHR 0x5C \<Longrightarrow>
   repr_str s = CHR 0x27 # s @ [CHR 0x27]"
proof -
  assume q: "CHR 0x27 \<notin> set s" and p: "\<forall>c\<in>set s. printable c \<and> c \<noteq> CHR 0x5C"
  have "\<forall>c\<in>set s. repr_char (CHR 0x27) c = [c]"
  proof
    fix c assume c: "c \<in> set s"
    with q have "c \<noteq> CHR 0x27" by auto
    moreover from p c have "printable c" "c \<noteq> CHR 0x5C" by auto
    moreover from \<open>printable c\<close> have "c \<noteq> CHR 0x09" "c \<noteq> CHR 0x0A" "c \<noteq> CHR 0x0D"
      by (auto simp: printable_def)
    ultimately show "repr_char (CHR 0x27) c = [c]" by (simp add: repr_char_def)
  qed
  then have "concat (map (repr_char (CHR 0x27)) s) = s"
    by (induction s) auto
  with q show ?thesis by (simp add: repr_str_def Let_def)
qed

subsection \<open>OneOf membership\<close>

text \<open>
  C4. Setting a OneOf/Enum field to \<open>v\<close> succeeds and stores \<open>v\<close> exactly when \<open>v\<close> is
  \<open>None\<close> or equal to a member of \<open>types\<close>; otherwise it raises the ValueError whose
  message is the attempted value between backquotes, \<open>not in\<close>, and the whole tuple of
  allowed values. \<open>None\<close> is accepted whatever \<open>types\<close> holds.
\<close>

theorem OneOf_membership:
  "(v = PNone \<or> (\<exists>t\<in>set (types f). v = t) \<longrightarrow>
      OneOf_call f (Given v) = Inr (f\<lparr>oneof_value := Given v\<rparr>, Given v))
   \<and> (\<not> (v = PNone \<or> (\<exists>t\<in>set (types f). v = t)) \<longrightarrow>
      OneOf_call f (Given v) =
        Inl (ValueError ([CHR 0x60] @ py_str v @ [CHR 0x60] @ '' not in '' @ py_str (PTuple (types f)))))
   \<and> OneOf_call f (Given PNone) = Inr (f\<lparr>oneof_value := Given PNone\<rparr>, Given PNone)"
  by (auto simp: OneOf_call_def OneOf_error_def)

theorem OneOf_membership_witness:
  "OneOf_call \<lparr>types = [PStr ''cat'', PStr ''dog'', PStr ''mouse''], oneof_value = Empty,
       oneof_type_name = None, oneof_table = None, oneof_field_name = None,
       type_oid = None, type_array_oid = None\<rparr> (Given (PStr ''goat''))
     = Inl (ValueError ([CHR 0x60] @ ''goat'' @ [CHR 0x60] @ '' not in ('' @
         [CHR 0x27] @ ''cat'' @ [CHR 0x27] @ '', '' @ [CHR 0x27] @ ''dog'' @ [CHR 0x27] @ '', '' @
         [CHR 0x27] @ ''mouse'' @ [CHR 0x27] @ '')''))
   \<and> OneOf_call \<lparr>types = [PStr ''cat'', PStr ''dog'', PStr ''mouse''], oneof_value = Empty,
       oneof_type_name = None, oneof_table = None, oneof_field_name = None,
       type_oid = None, type_array_oid = None\<rparr> (Given (PStr ''dog''))
     = Inr (\<lparr>types = [PStr ''cat'', PStr ''dog'', PStr ''mouse''], oneof_value = Given (PStr ''dog''),
       oneof_type_name = None, oneof_table = None, oneof_field_name = None,
       type_oid = None, type_array_oid = None\<rparr>, Given (PStr ''dog''))"
  using OneOf_membership [of "PStr ''goat''" "\<lparr>types = [PStr ''cat'', PStr ''dog'', PStr ''mouse''],
       oneof_value = Empty, oneof_type_name = None, oneof_table = None, oneof_field_name = None,
       type_oid = None, type_array_oid = None\<rparr>"]
    OneOf_membership [of "PStr ''dog''" "\<lparr>types = [PStr ''cat'', PStr ''dog'', PStr ''mouse''],
       oneof_value = Empty, oneof_type_name = None, oneof_table = None, oneof_field_name = None,
       type_oid = None, type_array_oid = None\<rparr>"]
  by (simp add: py_str_def repr_str_plain printable_def)

subsection \<open>The request address of an IP field\<close>

text \<open>
  C10. An IP field built without a request object, called with \<open>IP.current\<close> (\<open>-1\<close>),
  replaces the argument by the absent request address, stores \<open>None\<close> and returns
  \<open>None\<close>; the address constructor is not consulted, so nothing is raised.
\<close>

theorem IP_current_without_request:
  "ip_request f = None \<Longrightarrow>
   IP_call IPAddress f (Given (PInt (- 1))) = Inr (f\<lparr>ip_value := Given None\<rparr>, Given None)"
  by (simp add: IP_call_def IP_current_def request_ip_def)

theorem IP_current_without_request_witness:
  "ip_request \<lparr>ip_request = None, ip_value = (Empty :: unit option arg)\<rparr> = None
   \<and> IP_call (\<lambda>v. Inl (ValueError (py_repr v))) \<lparr>ip_request = None, ip_value = (Empty :: unit option arg)\<rparr>
        (Given (PInt (- 1)))
     = Inr (\<lparr>ip_request = None, ip_value = Given None\<rparr>, Given None)"
  using IP_current_without_request
    [of "\<lparr>ip_request = None, ip_value = (Empty :: unit option arg)\<rparr>" "\<lambda>v. Inl (ValueError (py_repr v))"]
  by simp

subsection \<open>Casting an Array\<close>

lemma cast_of_iter: "py_iter v = Inr xs \<Longrightarrow> cast f v d = cast_list f xs d"
  by (simp add: cast_def)

lemma dims_exceeded_mono: "dims_exceeded dims d \<Longrightarrow> d \<le> d' \<Longrightarrow> dims_exceeded dims d'"
  by (auto simp: dims_exceeded_def split: option.splits)

lemma not_exceeded_le: "\<not> dims_exceeded dims d' \<Longrightarrow> d \<le> d' \<Longrightarrow> \<not> dims_exceeded dims d"
  using dims_exceeded_mono by blast

lemma not_list_case:
  "\<forall>ys. x \<noteq> PList ys \<Longrightarrow> (case x of PList ys \<Rightarrow> g ys | _ \<Rightarrow> b) = b"
  by (cases x) auto

lemma not_list_depth: "\<forall>ys. x \<noteq> PList ys \<Longrightarrow> list_depth x = 0"
  by (cases x) auto

lemma cast_accepts:
  "items_ok f xs \<Longrightarrow> \<not> dims_exceeded (dimensions f) (nd - 1 + int (items_depth xs)) \<Longrightarrow>
     \<exists>r. cast_items f xs nd = Inr r"
  "items_ok f ys \<Longrightarrow> \<not> dims_exceeded (dimensions f) (d + int (items_depth ys)) \<Longrightarrow>
     \<exists>r. cast_list f ys d = Inr r"
proof (induction f xs nd and f ys d rule: cast_items_cast_list.induct)
  case (1 f nd)
  then show ?case by simp
next
  case (2 f x xs nd)
  have rest: "\<not> dims_exceeded (dimensions f) (nd - 1 + int (items_depth xs))"
    by (rule not_exceeded_le [OF "2.prems"(2)]) simp
  from "2.prems"(1) have okxs: "items_ok f xs" by simp
  show ?case
  proof (cases "\<exists>ys. x = PList ys")
    case True
    then obtain ys where PList: "x = PList ys" by blast
    have "\<not> dims_exceeded (dimensions f) (nd + int (items_depth ys))"
      by (rule not_exceeded_le [OF "2.prems"(2)]) (simp add: PList)
    moreover from "2.prems"(1) PList have "items_ok f ys" by simp
    ultimately obtain y where y: "cast_list f ys nd = Inr y"
      using "2.IH"(1) [OF PList] by blast
    with "2.IH"(2) [of y] okxs rest PList obtain r where "cast_items f xs nd = Inr r"
      by auto
    with y PList show ?thesis by simp
  next
    case False
    then have sc: "\<forall>ys. x \<noteq> PList ys" by blast
    with "2.prems"(1) obtain b where b: "atype f x = Inr b"
      by (cases "atype f x") (auto simp: not_list_case)
    with "2.IH"(2) [of "Leaf b"] okxs rest sc obtain r where "cast_items f xs nd = Inr r"
      by (auto simp: not_list_case)
    with b sc show ?thesis by (simp add: not_list_case)
  qed
next
  case (3 f ys d)
  have "\<not> dims_exceeded (dimensions f) d"
    by (rule not_exceeded_le [OF "3.prems"(2)]) simp
  moreover have "\<exists>r. cast_items f ys (d + 1) = Inr r"
    using "3.IH" "3.prems" calculation by simp
  ultimately show ?case by auto
qed

lemma cast_fails:
  "\<not> dims_exceeded (dimensions f) (nd - 1) \<Longrightarrow>
   dims_exceeded (dimensions f) (nd - 1 + int (items_depth xs)) \<Longrightarrow> isl (cast_items f xs nd)"
  "dims_exceeded (dimensions f) (d + int (items_depth ys)) \<Longrightarrow> isl (cast_list f ys d)"
proof (induction f xs nd and f ys d rule: cast_items_cast_list.induct)
  case (1 f nd)
  then show ?case by simp
next
  case (2 f x xs nd)
  show ?case
  proof (cases "\<exists>ys. x = PList ys")
    case True
    then obtain ys where PList: "x = PList ys" by blast
    show ?thesis
    proof (cases "cast_list f ys nd")
      case (Inl e)
      with PList show ?thesis by simp
    next
      case (Inr y)
      have "\<not> dims_exceeded (dimensions f) (nd + int (items_depth ys))"
        using "2.IH"(1) [OF PList] Inr by auto
      with "2.prems"(2) PList have "dims_exceeded (dimensions f) (nd - 1 + int (items_depth xs))"
        by (cases "items_depth xs \<le> Suc (items_depth ys)") (auto simp: max_def dest: dims_exceeded_mono)
      with "2.IH"(2) [of y] "2.prems"(1) PList Inr have "isl (cast_items f xs nd)" by simp
      with PList Inr show ?thesis by (auto split: sum.splits)
    qed
  next
    case False
    then have sc: "\<forall>ys. x \<noteq> PList ys" by blast
    show ?thesis
    proof (cases "atype f x")
      case (Inl e)
      with sc show ?thesis by (simp add: not_list_case)
    next
      case (Inr b)
      from "2.prems"(2) sc have "dims_exceeded (dimensions f) (nd - 1 + int (items_depth xs))"
        by (simp add: not_list_depth)
      with "2.IH"(2) [of "Leaf b"] "2.prems"(1) sc Inr have "isl (cast_items f xs nd)"
        by (simp add: not_list_case)
      with sc Inr show ?thesis by (auto simp: not_list_case split: sum.splits)
    qed
  qed
next
  case (3 f ys d)
  show ?case
  proof (cases "dims_exceeded (dimensions f) d")
    case True
    then show ?thesis by simp
  next
    case False
    with "3.IH" "3.prems" have "isl (cast_items f ys (d + 1))" by simp
    with False show ?thesis by (auto split: sum.splits)
  qed
qed

lemma cast_depth_error:
  "dimensions f = Some n \<Longrightarrow> items_ok f xs \<Longrightarrow> \<not> dims_exceeded (dimensions f) (nd - 1) \<Longrightarrow>
   dims_exceeded (dimensions f) (nd - 1 + int (items_depth xs)) \<Longrightarrow>
     cast_items f xs nd = Inl (dims_error (n + 1) (Some n))"
  "dimensions f = Some n \<Longrightarrow> items_ok f ys \<Longrightarrow> d \<le> n + 1 \<Longrightarrow>
   dims_exceeded (dimensions f) (d + int (items_depth ys)) \<Longrightarrow>
     cast_list f ys d = Inl (dims_error (n + 1) (Some n))"
proof (induction f xs nd and f ys d rule: cast_items_cast_list.induct)
  case (1 f nd)
  then show ?case by simp
next
  case (2 f x xs nd)
  from "2.prems"(2) have okxs: "items_ok f xs" by simp
  from "2.prems"(1,3,4) have n0: "n \<noteq> 0" and nd: "nd \<le> n + 1"
    by (auto simp: dims_exceeded_def)
  show ?case
  proof (cases "\<exists>ys. x = PList ys")
    case True
    then obtain ys where PList: "x = PList ys" by blast
    from "2.prems"(2) PList have okys: "items_ok f ys" by simp
    show ?thesis
    proof (cases "dims_exceeded (dimensions f) (nd + int (items_depth ys))")
      case True
      with "2.IH"(1) [OF PList "2.prems"(1) okys nd] PList show ?thesis by simp
    next
      case False
      with cast_accepts(2) [OF okys] obtain y where y: "cast_list f ys nd = Inr y" by blast
      from False "2.prems"(4) PList have "dims_exceeded (dimensions f) (nd - 1 + int (items_depth xs))"
        by (cases "items_depth xs \<le> Suc (items_depth ys)") (auto simp: max_def dest: dims_exceeded_mono)
      with "2.IH"(2) [of y] "2.prems"(1,3) okxs PList y
      have "cast_items f xs nd = Inl (dims_error (n + 1) (Some n))" by simp
      with PList y show ?thesis by simp
    qed
  next
    case False
    then have sc: "\<forall>ys. x \<noteq> PList ys" by blast
    with "2.prems"(2) obtain b where b: "atype f x = Inr b"
      by (cases "atype f x") (auto simp: not_list_case)
    from "2.prems"(4) sc have "dims_exceeded (dimensions f) (nd - 1 + int (items_depth xs))"
      by (simp add: not_list_depth)
    with "2.IH"(2) [of "Leaf b"] "2.prems"(1,3) okxs sc b
    have "cast_items f xs nd = Inl (dims_error (n + 1) (Some n))" by (simp add: not_list_case)
    with sc b show ?thesis by (simp add: not_list_case)
  qed
next
  case (3 f ys d)
  from "3.prems"(1,4) have n0: "n \<noteq> 0" by (auto simp: dims_exceeded_def)
  show ?case
  proof (cases "dims_exceeded (dimensions f) d")
    case True
    with "3.prems"(1,3) have "d = n + 1" by (auto simp: dims_exceeded_def)
    with True "3.prems"(1) show ?thesis by simp
  next
    case False
    with "3.IH" [OF False "3.prems"(1,2)] "3.prems"(4)
    have "cast_items f ys (d + 1) = Inl (dims_error (n + 1) (Some n))" by simp
    with False show ?thesis by simp
  qed
qed

lemma Array_call_iter:
  "py_iter v = Inr xs \<Longrightarrow>
   Array_call f (Given v) =
     (case cast_list f xs 1 of
        Inl e \<Rightarrow> Inl e
      | Inr r \<Rightarrow> Inr (f\<lparr>array_value := Given (Some r)\<rparr>, Given (Some r)))"
  by (auto simp: Array_call_def cast_of_iter py_iter_def)

lemma cast_list_top:
  "cast_list f xs 1 = Inr r \<Longrightarrow> \<exists>r'. r = ArrayList (atype_name f) r'"
  by (auto simp: wrap_arr_def split: if_splits sum.splits)

text \<open>
  C2. Assigning a whole value to an Array field walks it with \<open>_cast\<close> from depth 1.
  A sequence reached at a depth above a truthy \<open>dimensions\<close> raises the ValueError that
  names that depth and the bound; so a value nested deeper than \<open>dimensions\<close> is refused
  (with the message for depth \<open>dimensions + 1\<close> when its elements are all accepted by the
  element field), a value nested no deeper than \<open>dimensions\<close> is stored when its elements
  are accepted, and with \<open>dimensions\<close> \<open>None\<close> or \<open>0\<close> any depth is stored.
  Here \<open>xs\<close> are the items of the assigned value and \<open>Suc (items_depth xs)\<close> its depth.
\<close>

theorem Array_depth_enforcement:
  assumes it: "py_iter v = Inr xs"
  shows
    "Array_call f (Given v) =
       (case cast f v 1 of
          Inl e \<Rightarrow> Inl e
        | Inr r \<Rightarrow> Inr (f\<lparr>array_value := Given (Some r)\<rparr>, Given (Some r)))
     \<and> (dimensions f = Some n \<and> n \<noteq> 0 \<and> n < d \<longrightarrow>
          cast f w d =
            Inl (ValueError (''Invalid dimensions ('' @ str_int d @ ''): max depth is set to '' @ str_int n)))
     \<and> (dimensions f = Some n \<and> 1 \<le> n \<and> n < int (Suc (items_depth xs)) \<longrightarrow>
          isl (Array_call f (Given v))
          \<and> (items_ok f xs \<longrightarrow>
               Array_call f (Given v) =
                 Inl (ValueError (''Invalid dimensions ('' @ str_int (n + 1) @
                        ''): max depth is set to '' @ str_int n))))
     \<and> (dimensions f = Some n \<and> int (Suc (items_depth xs)) \<le> n \<and> items_ok f xs \<longrightarrow>
          (\<exists>r. Array_call f (Given v) =
                 Inr (f\<lparr>array_value := Given (Some (ArrayList (atype_name f) r))\<rparr>,
                      Given (Some (ArrayList (atype_name f) r)))))
     \<and> ((dimensions f = None \<or> dimensions f = Some 0) \<and> items_ok f xs \<longrightarrow>
          (\<exists>r. Array_call f (Given v) =
                 Inr (f\<lparr>array_value := Given (Some (ArrayList (atype_name f) r))\<rparr>,
                      Given (Some (ArrayList (atype_name f) r)))))"
proof -
  from it have nn: "v \<noteq> PNone" by (auto simp: py_iter_def)
  have start: "Array_call f (Given v) =
       (case cast f v 1 of
          Inl e \<Rightarrow> Inl e
        | Inr r \<Rightarrow> Inr (f\<lparr>array_value := Given (Some r)\<rparr>, Given (Some r)))"
    using nn by (simp add: Array_call_def)
  have reached: "dimensions f = Some n \<and> n \<noteq> 0 \<and> n < d \<longrightarrow>
          cast f w d =
            Inl (ValueError (''Invalid dimensions ('' @ str_int d @ ''): max depth is set to '' @ str_int n))"
    by (simp add: cast_def dims_exceeded_def dims_error_def repr_dims_def)
  have accepted: "\<exists>r. Array_call f (Given v) =
                 Inr (f\<lparr>array_value := Given (Some (ArrayList (atype_name f) r))\<rparr>,
                      Given (Some (ArrayList (atype_name f) r)))"
    if ok: "items_ok f xs" and fit: "\<not> dims_exceeded (dimensions f) (1 + int (items_depth xs))"
  proof -
    from cast_accepts(2) [OF ok fit] obtain r where r: "cast_list f xs 1 = Inr r" by blast
    with cast_list_top obtain r' where "r = ArrayList (atype_name f) r'" by blast
    with r show ?thesis by (simp add: Array_call_iter [OF it])
  qed
  have too_deep: "isl (Array_call f (Given v))
          \<and> (items_ok f xs \<longrightarrow>
               Array_call f (Given v) =
                 Inl (ValueError (''Invalid dimensions ('' @ str_int (n + 1) @
                        ''): max depth is set to '' @ str_int n)))"
    if dn: "dimensions f = Some n" and n1: "1 \<le> n" and deep: "n < int (Suc (items_depth xs))"
  proof -
    from dn n1 deep have ex: "dims_exceeded (dimensions f) (1 + int (items_depth xs))"
      by (simp add: dims_exceeded_def)
    from cast_fails(2) [OF ex] obtain e where "cast_list f xs 1 = Inl e"
      by (cases "cast_list f xs 1") auto
    then have "isl (Array_call f (Given v))"
      by (simp only: Array_call_iter [OF it] sum.case sum.disc)
    moreover have "Array_call f (Given v) =
                 Inl (ValueError (''Invalid dimensions ('' @ str_int (n + 1) @
                        ''): max depth is set to '' @ str_int n))" if ok: "items_ok f xs"
    proof -
      from n1 have "1 \<le> n + 1" by simp
      from cast_depth_error(2) [OF dn ok this ex] show ?thesis
        by (simp add: Array_call_iter [OF it] dims_error_def repr_dims_def)
    qed
    ultimately show ?thesis by blast
  qed
  have fits: "\<not> dims_exceeded (dimensions f) (1 + int (items_depth xs))"
    if "dimensions f = Some n" "int (Suc (items_depth xs)) \<le> n"
    using that by (simp add: dims_exceeded_def)
  have falsy: "\<not> dims_exceeded (dimensions f) (1 + int (items_depth xs))"
    if "dimensions f = None \<or> dimensions f = Some 0"
    using that by (auto simp: dims_exceeded_def)
  show ?thesis
    using start reached accepted too_deep fits falsy by blast
qed

theorem Array_depth_enforcement_witness:
  "Array_call (example_array (Some 1)) (Given (PList [PList [PInt 5]]))
     = Inl (ValueError ''Invalid dimensions (2): max depth is set to 1'')
   \<and> (\<exists>r. Array_call (example_array (Some 2)) (Given (PList [PList [PInt 5]]))
           = Inr ((example_array (Some 2))\<lparr>array_value := Given (Some (ArrayList ''text'' r))\<rparr>,
                  Given (Some (ArrayList ''text'' r))))
   \<and> (\<exists>r. Array_call (example_array None) (Given (PList [PList [PList [PInt 5]]]))
           = Inr ((example_array None)\<lparr>array_value := Given (Some (ArrayList ''text'' r))\<rparr>,
                  Given (Some (ArrayList ''text'' r))))"
proof -
  have i1: "py_iter (PList [PList [PInt 5]]) = Inr [PList [PInt 5]]"
    and i2: "py_iter (PList [PList [PList [PInt 5]]]) = Inr [PList [PList [PInt 5]]]"
    by (simp_all add: py_iter_def)
  have ok: "items_ok (example_array dims) [PList [PInt 5]]"
    "items_ok (example_array dims) [PList [PList [PInt 5]]]" for dims
    by (simp_all add: example_array_def accept_all_def)
  have s: "str_int 2 = ''2''" "str_int 1 = ''1''"
    by (simp_all add: str_int_def dec_digits_small digit_char_def)
  have sel: "dimensions (example_array dims) = dims" "atype_name (example_array dims) = ''text''" for dims
    by (simp_all add: example_array_def)
  from Array_depth_enforcement [OF i1, of "example_array (Some 1)" 1 0 PNone, THEN conjunct2]
       Array_depth_enforcement [OF i1, of "example_array (Some 2)" 2 0 PNone, THEN conjunct2]
       Array_depth_enforcement [OF i2, of "example_array None" 0 0 PNone, THEN conjunct2]
  show ?thesis
    using ok s by (simp add: sel)
qed

subsection \<open>Mutating an Array\<close>










subsection \<open>cargo and bloom\<close>

lemma casts_agree:
  "dimensions f = Some n \<Longrightarrow> n \<noteq> 0 \<Longrightarrow>
     map_sum id (map plain) (cast_items f xs nd) = map_sum id (map plain) (bloom_cast_items f xs nd)"
  "dimensions f = Some n \<Longrightarrow> n \<noteq> 0 \<Longrightarrow>
     map_sum id plain (cast_list f ys d) = map_sum id plain (bloom_cast_list f ys d)"
proof (induction f xs nd and f ys d rule: cast_items_cast_list.induct)
  case (1 f nd)
  then show ?case by simp
next
  case (2 f x xs nd)
  show ?case
  proof (cases "\<exists>ys. x = PList ys")
    case True
    then obtain ys where PList: "x = PList ys" by blast
    note hd = "2.IH"(1) [OF PList "2.prems"]
    show ?thesis
    proof (cases "cast_list f ys nd")
      case (Inl e)
      with hd have "bloom_cast_list f ys nd = Inl e"
        by (cases "bloom_cast_list f ys nd") auto
      with Inl PList show ?thesis by simp
    next
      case (Inr y)
      with hd obtain y' where y': "bloom_cast_list f ys nd = Inr y'" "plain y' = plain y"
        by (cases "bloom_cast_list f ys nd") auto
      have "(case x of PList ys \<Rightarrow> cast_list f ys nd | _ \<Rightarrow> map_sum id Leaf (atype f x)) = Inr y"
        using PList Inr by simp
      from "2.IH"(2) [OF this "2.prems"]
      have "map_sum id (map plain) (cast_items f xs nd) = map_sum id (map plain) (bloom_cast_items f xs nd)" .
      with PList Inr y' show ?thesis
        by (cases "cast_items f xs nd"; cases "bloom_cast_items f xs nd") auto
    qed
  next
    case False
    then have sc: "\<forall>ys. x \<noteq> PList ys" by blast
    show ?thesis
    proof (cases "atype f x")
      case (Inl e)
      with sc show ?thesis by (simp add: not_list_case)
    next
      case (Inr b)
      have "(case x of PList ys \<Rightarrow> cast_list f ys nd | _ \<Rightarrow> map_sum id Leaf (atype f x)) = Inr (Leaf b)"
        using sc Inr by (simp add: not_list_case)
      from "2.IH"(2) [OF this "2.prems"]
      have "map_sum id (map plain) (cast_items f xs nd) = map_sum id (map plain) (bloom_cast_items f xs nd)" .
      with sc Inr show ?thesis
        by (cases "cast_items f xs nd"; cases "bloom_cast_items f xs nd") (auto simp: not_list_case)
    qed
  qed
next
  case (3 f ys d)
  show ?case
  proof (cases "dims_exceeded (dimensions f) d")
    case True
    with "3.prems" show ?thesis by (simp add: dims_exceeded_def bloom_check_def)
  next
    case False
    with "3.prems" have bc: "bloom_check (dimensions f) d = None"
      by (simp add: dims_exceeded_def bloom_check_def)
    from "3.IH" [OF False "3.prems"] False bc show ?thesis
      by (cases "cast_items f ys (d + 1)"; cases "bloom_cast_items f ys (d + 1)")
         (auto simp: wrap_arr_def)
  qed
qed

lemma casts_agree_any:
  assumes "dimensions f = Some n" "n \<noteq> 0"
  shows "map_sum id plain (cast f v d) = map_sum id plain (bloom_cast f v d)"
proof (cases "dims_exceeded (dimensions f) d")
  case True
  with assms show ?thesis by (simp add: cast_def bloom_cast_def dims_exceeded_def bloom_check_def)
next
  case False
  with assms have bc: "bloom_check (dimensions f) d = None"
    by (simp add: dims_exceeded_def bloom_check_def)
  show ?thesis
  proof (cases "py_iter v")
    case (Inl e)
    with False bc show ?thesis by (simp add: cast_def bloom_cast_def)
  next
    case (Inr xs)
    from casts_agree(1) [OF assms, of xs "d + 1"] False bc Inr show ?thesis
      by (cases "cast_items f xs (d + 1)"; cases "bloom_cast_items f xs (d + 1)")
         (auto simp: cast_def bloom_cast_def wrap_arr_def)
  qed
qed

text \<open>
  C9. For one element type and a positive \<open>dimensions\<close>, cargo's \<open>_cast\<close> and bloom's
  \<open>_cast\<close> raise the same error on the same inputs, and when they return, the two nested
  lists have equal items (bloom's inner lists are \<open>arraylist\<close>s, cargo's plain lists).
\<close>

theorem cast_cargo_bloom_equivalent:
  assumes "dimensions f = Some n" "0 < n"
  shows "(cast f v d = Inl e \<longleftrightarrow> bloom_cast f v d = Inl e)
       \<and> (cast f v d = Inr r \<longrightarrow> (\<exists>r'. bloom_cast f v d = Inr r' \<and> plain r' = plain r))
       \<and> (bloom_cast f v d = Inr r' \<longrightarrow> (\<exists>r. cast f v d = Inr r \<and> plain r = plain r'))"
proof -
  from assms have "map_sum id plain (cast f v d) = map_sum id plain (bloom_cast f v d)"
    by (intro casts_agree_any) auto
  then show ?thesis
    by (cases "cast f v d"; cases "bloom_cast f v d") auto
qed

theorem cast_cargo_bloom_equivalent_witness:
  "cast (example_array (Some 2)) (PList [PList [PInt 5], PInt 6]) 1
     = Inr (ArrayList ''text'' [Lst [Leaf (PInt 5)], Leaf (PInt 6)])
   \<and> bloom_cast (example_array (Some 2)) (PList [PList [PInt 5], PInt 6]) 1
     = Inr (ArrayList ''text'' [ArrayList ''text'' [Leaf (PInt 5)], Leaf (PInt 6)])
   \<and> (\<exists>r'. bloom_cast (example_array (Some 2)) (PList [PList [PInt 5], PInt 6]) 1 = Inr r'
       \<and> plain r' = plain (ArrayList ''text'' [Lst [Leaf (PInt 5)], Leaf (PInt 6)]))"
proof -
  have sel: "dimensions (example_array (Some 2)) = Some 2" "atype_name (example_array dims) = ''text''"
    "atype (example_array dims) = accept_all" for dims
    by (simp_all add: example_array_def)
  have c: "cast (example_array (Some 2)) (PList [PList [PInt 5], PInt 6]) 1
     = Inr (ArrayList ''text'' [Lst [Leaf (PInt 5)], Leaf (PInt 6)])"
    by (simp add: cast_def py_iter_def dims_exceeded_def wrap_arr_def sel accept_all_def)
  have b: "bloom_cast (example_array (Some 2)) (PList [PList [PInt 5], PInt 6]) 1
     = Inr (ArrayList ''text'' [ArrayList ''text'' [Leaf (PInt 5)], Leaf (PInt 6)])"
    by (simp add: bloom_cast_def py_iter_def bloom_check_def sel accept_all_def)
  from cast_cargo_bloom_equivalent [OF sel(1), of "PList [PList [PInt 5], PInt 6]" 1
      "ValueError []" "ArrayList ''text'' [Lst [Leaf (PInt 5)], Leaf (PInt 6)]" "Leaf PNone"] c
  have "\<exists>r'. bloom_cast (example_array (Some 2)) (PList [PList [PInt 5], PInt 6]) 1 = Inr r'
       \<and> plain r' = plain (ArrayList ''text'' [Lst [Leaf (PInt 5)], Leaf (PInt 6)])"
    by simp
  with c b show ?thesis by blast
qed

subsection \<open>The binary codec\<close>

lemma alphabet_distinct: "distinct b64_alphabet"
  by (simp add: b64_alphabet_def)

lemma alphabet_length: "length b64_alphabet = 64"
  by (simp add: b64_alphabet_def)

lemma index_of_nth: "distinct xs \<Longrightarrow> i < length xs \<Longrightarrow> index_of (xs ! i) xs = Some i"
proof (induction xs arbitrary: i)
  case Nil
  then show ?case by simp
next
  case (Cons y ys)
  show ?case
  proof (cases i)
    case 0
    then show ?thesis by simp
  next
    case (Suc j)
    with Cons.prems have "ys ! j \<noteq> y" by auto
    with Suc Cons show ?thesis by simp
  qed
qed

lemma of_char_byte_inj: "inj (of_char :: char \<Rightarrow> byte)"
proof (rule injI)
  fix c d :: char
  assume "(of_char c :: byte) = of_char d"
  then have "(of_nat (of_char c) :: byte) = of_nat (of_char d)"
    by (simp add: of_nat_of_char)
  then have "unat (of_nat (of_char c) :: byte) = unat (of_nat (of_char d) :: byte)" by simp
  then have "(of_char c :: nat) = of_char d"
    by (simp add: unat_of_nat)
  then show "c = d" by simp
qed

lemma a2b_b2a: "unat s < 64 \<Longrightarrow> table_a2b_base64 (table_b2a_base64 s) = Some s"
proof -
  assume s: "unat s < 64"
  have "inj_on (of_char :: char \<Rightarrow> byte) (set b64_alphabet)"
    using of_char_byte_inj by (rule inj_on_subset) simp
  then have d: "distinct (map (of_char :: char \<Rightarrow> byte) b64_alphabet)"
    by (simp add: distinct_map alphabet_distinct)
  have "table_b2a_base64 s = map of_char b64_alphabet ! unat s"
    using s by (simp add: table_b2a_base64_def alphabet_length)
  with index_of_nth [OF d, of "unat s"] s show ?thesis
    by (simp add: table_a2b_base64_def alphabet_length)
qed

lemma b2a_not_pad: "unat s < 64 \<Longrightarrow> table_b2a_base64 s \<noteq> BASE64_PAD"
proof
  assume s: "unat s < 64" and eq: "table_b2a_base64 s = BASE64_PAD"
  from s have "b64_alphabet ! unat s \<in> set b64_alphabet"
    by (simp add: alphabet_length)
  moreover have "CHR ''='' \<notin> set b64_alphabet" by (simp add: b64_alphabet_def)
  ultimately have ne: "b64_alphabet ! unat s \<noteq> CHR ''=''" by metis
  from eq have "(of_char (b64_alphabet ! unat s) :: byte) = of_char (CHR ''='')"
    by (simp only: table_b2a_base64_def BASE64_PAD_def)
  with of_char_byte_inj have "b64_alphabet ! unat s = CHR ''=''" by (rule injD)
  with ne show False by contradiction
qed

lemma byte_masks: "(3::byte) = mask 2" "(15::byte) = mask 4" "(63::byte) = mask 6"
  by (simp_all add: mask_eq_exp_minus_1)

lemma Suc_Suc_diff2: "2 \<le> n \<Longrightarrow> Suc (Suc (n - 2)) = n" by simp

lemma sextet_bound: "take_bit 6 w = w \<Longrightarrow> unat (w::byte) < 64"
proof -
  assume "take_bit 6 w = w"
  then have "unat w = unat (take_bit 6 w)" by simp
  also have "\<dots> < 2 ^ 6" by (simp only: unsigned_take_bit_eq) (rule take_bit_nat_less_exp)
  finally show ?thesis by simp
qed

lemma sextet0: "unat (drop_bit 2 (a::byte)) < 64"
  by (rule sextet_bound, rule bit_word_eqI) (auto simp: bit_simps dest: bit_imp_le_length)

lemma sextet1: "unat (push_bit 4 (a AND 3) OR drop_bit 4 (b::byte)) < 64"
  by (rule sextet_bound, simp only: byte_masks flip: take_bit_eq_mask, rule bit_word_eqI)
     (auto simp: bit_simps dest: bit_imp_le_length)

lemma sextet2: "unat (push_bit 2 (b AND 15) OR drop_bit 6 (c::byte)) < 64"
  by (rule sextet_bound, simp only: byte_masks flip: take_bit_eq_mask, rule bit_word_eqI)
     (auto simp: bit_simps dest: bit_imp_le_length)

lemma sextet3: "unat ((c::byte) AND 63) < 64"
  by (rule sextet_bound, simp only: byte_masks flip: take_bit_eq_mask, rule bit_word_eqI)
     (auto simp: bit_simps dest: bit_imp_le_length)

lemma sextet1_last: "unat (push_bit 4 ((a::byte) AND 3)) < 64"
  by (rule sextet_bound, simp only: byte_masks flip: take_bit_eq_mask, rule bit_word_eqI)
     (auto simp: bit_simps dest: bit_imp_le_length)

lemma sextet2_last: "unat (push_bit 2 ((b::byte) AND 15)) < 64"
  by (rule sextet_bound, simp only: byte_masks flip: take_bit_eq_mask, rule bit_word_eqI)
     (auto simp: bit_simps dest: bit_imp_le_length)

lemma byte0_rejoined: "push_bit 2 (drop_bit 2 a) OR drop_bit 4 (push_bit 4 (a AND 3) OR drop_bit 4 b) = (a::byte)"
  apply (simp only: byte_masks flip: take_bit_eq_mask)
  apply (rule bit_word_eqI)
  subgoal for n by (cases "2 \<le> n") (auto simp: bit_simps Suc_Suc_diff2)
  done

lemma byte1_rejoined: "push_bit 4 ((push_bit 4 (a AND 3) OR drop_bit 4 b) AND 15) OR drop_bit 2 (push_bit 2 (b AND 15) OR drop_bit 6 c) = (b::byte)"
  apply (simp only: byte_masks flip: take_bit_eq_mask)
  apply (rule bit_word_eqI)
  apply (auto simp: bit_simps)
  done

lemma byte2_rejoined: "push_bit 6 ((push_bit 2 (b AND 15) OR drop_bit 6 c) AND 3) OR (c AND 63) = (c::byte)"
  apply (simp only: byte_masks flip: take_bit_eq_mask)
  apply (rule bit_word_eqI)
  apply (auto simp: bit_simps)
  done

lemma byte0_rejoined_last: "push_bit 2 (drop_bit 2 a) OR drop_bit 4 (push_bit 4 (a AND 3)) = (a::byte)"
  apply (simp only: byte_masks flip: take_bit_eq_mask)
  apply (rule bit_word_eqI)
  subgoal for n by (cases "2 \<le> n") (auto simp: bit_simps Suc_Suc_diff2)
  done

lemma byte1_rejoined_last: "push_bit 4 ((push_bit 4 (a AND 3) OR drop_bit 4 b) AND 15) OR drop_bit 2 (push_bit 2 (b AND 15)) = (b::byte)"
  apply (simp only: byte_masks flip: take_bit_eq_mask)
  apply (rule bit_word_eqI)
  apply (auto simp: bit_simps)
  done

lemma a2b_valid:
  assumes "unat s < 64"
  shows "a2b_base64 (table_b2a_base64 s # rest) quad_pos leftchar pads bin =
     (if quad_pos = 0 then a2b_base64 rest 1 s 0 bin
      else if quad_pos = 1
        then a2b_base64 rest 2 (s AND 15) 0 (bin @ [push_bit 2 leftchar OR drop_bit 4 s])
      else if quad_pos = 2
        then a2b_base64 rest 3 (s AND 3) 0 (bin @ [push_bit 4 leftchar OR drop_bit 2 s])
      else a2b_base64 rest 0 0 0 (bin @ [push_bit 6 leftchar OR s]))"
  using a2b_b2a [OF assms] b2a_not_pad [OF assms] by simp

lemma a2b_pad:
  "a2b_base64 (BASE64_PAD # rest) quad_pos leftchar pads bin =
     (if quad_pos \<ge> 2 \<and> quad_pos + (pads + 1) \<ge> 4 then Inr bin
      else a2b_base64 rest quad_pos leftchar (if quad_pos \<ge> 2 then pads + 1 else pads) bin)"
  by simp

lemma decode_quad:
  assumes "unat s0 < 64" "unat s1 < 64" "unat s2 < 64" "unat s3 < 64"
  shows "a2b_base64 (table_b2a_base64 s0 # table_b2a_base64 s1 # table_b2a_base64 s2 #
            table_b2a_base64 s3 # rest) 0 l 0 bin
     = a2b_base64 rest 0 0 0
         (bin @ [push_bit 2 s0 OR drop_bit 4 s1, push_bit 4 (s1 AND 15) OR drop_bit 2 s2,
                 push_bit 6 (s2 AND 3) OR s3])"
  by (simp add: a2b_valid a2b_pad assms del: a2b_base64.simps(2))

lemma decode_pad2:
  assumes "unat s0 < 64" "unat s1 < 64"
  shows "a2b_base64 [table_b2a_base64 s0, table_b2a_base64 s1, BASE64_PAD, BASE64_PAD] 0 l 0 bin
     = Inr (bin @ [push_bit 2 s0 OR drop_bit 4 s1])"
  by (simp add: a2b_valid a2b_pad assms del: a2b_base64.simps(2))

lemma decode_pad1:
  assumes "unat s0 < 64" "unat s1 < 64" "unat s2 < 64"
  shows "a2b_base64 [table_b2a_base64 s0, table_b2a_base64 s1, table_b2a_base64 s2, BASE64_PAD] 0 l 0 bin
     = Inr (bin @ [push_bit 2 s0 OR drop_bit 4 s1, push_bit 4 (s1 AND 15) OR drop_bit 2 s2])"
  by (simp add: a2b_valid a2b_pad assms del: a2b_base64.simps(2))

lemma decode_encode_acc:
  "a2b_base64 (b64encode v) 0 l 0 bin = Inr (bin @ v)"
proof (induction v arbitrary: l bin rule: b64encode.induct)
  case 1
  show ?case by simp
next
  case (2 a)
  show ?case
    by (simp only: b64encode.simps decode_pad2 [OF sextet0 sextet1_last] byte0_rejoined_last)
next
  case (3 a b)
  show ?case
    by (simp only: b64encode.simps decode_pad1 [OF sextet0 sextet1 sextet2_last] byte0_rejoined byte1_rejoined_last)
next
  case (4 a b c rest)
  have "a2b_base64 (b64encode (a # b # c # rest)) 0 l 0 bin
        = a2b_base64 (b64encode rest) 0 0 0 (bin @ [a, b, c])"
    by (simp only: b64encode.simps append.simps decode_quad [OF sextet0 sextet1 sextet2 sextet3] byte0_rejoined byte1_rejoined byte2_rejoined)
  also have "\<dots> = Inr ((bin @ [a, b, c]) @ rest)" by (rule 4)
  finally show ?case by simp
qed

lemma b64_roundtrip: "b64decode (Some (b64encode v)) = Inr v"
  by (simp add: b64decode_def decode_encode_acc)

lemma a2b_base64_error:
  "a2b_base64 s q l p bin = Inl e \<Longrightarrow> \<exists>m. e = BinasciiError m"
  by (induction s q l p bin rule: a2b_base64.induct) (auto split: if_splits option.splits)

lemma b64decode_error:
  "b64decode s = Inl e \<Longrightarrow> (\<exists>m. e = BinasciiError m) \<or> (\<exists>m. e = TypeError m)"
  by (auto simp: b64decode_def split: option.splits dest: a2b_base64_error)

text \<open>
  C7. The binary codec round-trips: \<open>to_db\<close> hands the base64 text of \<open>v\<close> to the driver's
  \<open>Binary\<close>; decoding that text gives \<open>v\<close> back, so \<open>to_python\<close> returns \<open>v\<close> for a wire
  value whose stored bytes are that text; when the stored bytes are not base64,
  \<open>to_python\<close> returns them as they are; it never raises.
\<close>

theorem Binary_codec_roundtrip:
  "to_db v = Binary (b64encode v)
   \<and> b64decode (Some (b64encode v)) = Inr v
   \<and> (BINARY w = Some (b64encode v) \<longrightarrow> to_python BINARY w = Inr (Some v))
   \<and> (isl (b64decode (BINARY w)) \<longrightarrow> to_python BINARY w = Inr (BINARY w))
   \<and> to_python BINARY w \<noteq> Inl e"
proof -
  have fallback: "to_python BINARY w = Inr (BINARY w)" if "isl (b64decode (BINARY w))"
  proof -
    from that obtain e' where e': "b64decode (BINARY w) = Inl e'"
      by (cases "b64decode (BINARY w)") auto
    from b64decode_error [OF e'] e' show ?thesis by (auto simp: to_python_def)
  qed
  have noraise: "to_python BINARY w \<noteq> Inl e"
  proof (cases "b64decode (BINARY w)")
    case (Inl e')
    then have "isl (b64decode (BINARY w))" by simp
    with fallback show ?thesis by simp
  next
    case (Inr v')
    then show ?thesis by (simp add: to_python_def)
  qed
  show ?thesis
    using fallback noraise by (simp add: to_db_def b64_roundtrip to_python_def)
qed

theorem Binary_codec_roundtrip_witness:
  "b64encode [of_char CHR ''h'', of_char CHR ''i''] = map of_char ''aGk=''
   \<and> to_python stored (to_db [of_char CHR ''h'', of_char CHR ''i'']) = Inr (Some [of_char CHR ''h'', of_char CHR ''i''])
   \<and> to_python stored (Binary [of_char CHR ''h'']) = Inr (Some [of_char CHR ''h''])"
proof -
  have e: "b64encode [of_char CHR ''h'', of_char CHR ''i''] = map of_char ''aGk=''"
    by (simp add: table_b2a_base64_def b64_alphabet_def BASE64_PAD_def)
  have s: "stored (to_db [of_char CHR ''h'', of_char CHR ''i'']) = Some (b64encode [of_char CHR ''h'', of_char CHR ''i''])"
    by (simp only: to_db_def stored_def adapted.case)
  have bad: "isl (b64decode (stored (Binary [of_char CHR ''h''])))"
    by (simp add: stored_def b64decode_def table_a2b_base64_def b64_alphabet_def BASE64_PAD_def)
  have s2: "stored (Binary [of_char CHR ''h'']) = Some [of_char CHR ''h'']"
    by (simp add: stored_def)
  from Binary_codec_roundtrip [of "[of_char CHR ''h'', of_char CHR ''i'']" stored
      "to_db [of_char CHR ''h'', of_char CHR ''i'']" "ValueError []"] s
  have a: "to_python stored (to_db [of_char CHR ''h'', of_char CHR ''i'']) = Inr (Some [of_char CHR ''h'', of_char CHR ''i''])"
    by blast
  from Binary_codec_roundtrip [of "[]" stored "Binary [of_char CHR ''h'']" "ValueError []"] bad s2
  have b: "to_python stored (Binary [of_char CHR ''h'']) = Inr (Some [of_char CHR ''h''])"
    by simp
  from e a b show ?thesis by blast
qed

subsection \<open>Registration of an enumerated type\<close>

lemma register_oid_cached:
  "type_oid f \<noteq> None \<or> type_array_oid f \<noteq> None \<Longrightarrow> register_oid f db = ((f, db), None)"
  by (auto simp: register_oid_def)

lemma register_oid_resolves:
  "type_oid f = None \<Longrightarrow> type_array_oid f = None \<Longrightarrow>
   fetch db (CHR ''_'' # type_name f, type_name f) = [a, b] \<Longrightarrow>
   register_oid f db =
     ((f\<lparr>type_oid := Some a, type_array_oid := Some b\<rparr>,
       db\<lparr>executed := executed db @ [(CHR ''_'' # type_name f, type_name f)]\<rparr>), None)"
  by (simp add: register_oid_def get_type_OID_def)

lemma register_oid_not_found:
  "type_oid f = None \<Longrightarrow> type_array_oid f = None \<Longrightarrow>
   length (fetch db (CHR ''_'' # type_name f, type_name f)) \<noteq> 2 \<Longrightarrow>
   \<exists>m. register_oid f db =
     ((f, db\<lparr>executed := executed db @ [(CHR ''_'' # type_name f, type_name f)]\<rparr>),
      Some (ValueError m))"
  by (auto simp: register_oid_def get_type_OID_def Let_def split: list.splits)

lemma type_name_oids [simp]:
  "type_name (f\<lparr>type_oid := x, type_array_oid := y\<rparr>) = type_name f"
  by (simp add: type_name_def)

text \<open>
  C6, as amended. \<open>_register_oid\<close> sends the query exactly when both cached identifiers
  are \<open>None\<close>. A registration that finds the pair caches it and registers both types;
  from then on every \<open>register_type\<close> on the field sends no query, leaves the field as it
  is and returns normally. A registration that finds no such pair (the tuple does not
  unpack into two) leaves the identifiers \<open>None\<close>, emits the warning that names the type
  and returns normally.
\<close>

theorem register_type_idempotent:
  "executed (snd (fst (register_oid f db))) =
     executed db @ (if type_oid f = None \<and> type_array_oid f = None
                    then [(CHR ''_'' # type_name f, type_name f)] else [])
   \<and> (type_oid f = None \<and> type_array_oid f = None
        \<and> fetch db (CHR ''_'' # type_name f, type_name f) = [a, b] \<longrightarrow>
        register_type f db =
          ((f\<lparr>type_oid := Some a, type_array_oid := Some b\<rparr>,
            db\<lparr>executed := executed db @ [(CHR ''_'' # type_name f, type_name f)],
               registry := registry db @ [(upper (type_name f), Some a),
                                          (upper (type_name f) @ ''ARRAY'', Some b)]\<rparr>), None))
   \<and> (type_oid f \<noteq> None \<or> type_array_oid f \<noteq> None \<longrightarrow>
        fst (fst (register_type f db)) = f
        \<and> executed (snd (fst (register_type f db))) = executed db
        \<and> warnings (snd (fst (register_type f db))) = warnings db
        \<and> snd (register_type f db) = None)
   \<and> (type_oid f = None \<and> type_array_oid f = None
        \<and> length (fetch db (CHR ''_'' # type_name f, type_name f)) \<noteq> 2 \<longrightarrow>
        register_type f db =
          ((f, db\<lparr>executed := executed db @ [(CHR ''_'' # type_name f, type_name f)],
                  warnings := warnings db @
                    [''Type '' @ [CHR 0x60] @ type_name f @ [CHR 0x60] @ '' not found in the database.'']\<rparr>),
           None))"
proof -
  have guard: "executed (snd (fst (register_oid f db))) =
     executed db @ (if type_oid f = None \<and> type_array_oid f = None
                    then [(CHR ''_'' # type_name f, type_name f)] else [])"
    by (auto simp: register_oid_def get_type_OID_def Let_def split: list.splits)
  have resolved: "register_type f db =
          ((f\<lparr>type_oid := Some a, type_array_oid := Some b\<rparr>,
            db\<lparr>executed := executed db @ [(CHR ''_'' # type_name f, type_name f)],
               registry := registry db @ [(upper (type_name f), Some a),
                                          (upper (type_name f) @ ''ARRAY'', Some b)]\<rparr>), None)"
    if "type_oid f = None" "type_array_oid f = None"
       "fetch db (CHR ''_'' # type_name f, type_name f) = [a, b]"
    using register_oid_resolves [OF that] by (simp add: register_type_def reg_type_def)
  have later: "fst (fst (register_type f db)) = f
        \<and> executed (snd (fst (register_type f db))) = executed db
        \<and> warnings (snd (fst (register_type f db))) = warnings db
        \<and> snd (register_type f db) = None"
    if "type_oid f \<noteq> None \<or> type_array_oid f \<noteq> None"
    using register_oid_cached [OF that] by (simp add: register_type_def reg_type_def)
  have missing: "register_type f db =
          ((f, db\<lparr>executed := executed db @ [(CHR ''_'' # type_name f, type_name f)],
                  warnings := warnings db @
                    [''Type '' @ [CHR 0x60] @ type_name f @ [CHR 0x60] @ '' not found in the database.'']\<rparr>),
           None)"
    if "type_oid f = None" "type_array_oid f = None"
       "length (fetch db (CHR ''_'' # type_name f, type_name f)) \<noteq> 2"
    using register_oid_not_found [OF that] by (auto simp: register_type_def)
  from guard resolved later missing show ?thesis by blast
qed

lemma type_name_pet: "type_name pet_field = ''pet''"
  by (simp add: type_name_def pet_field_def or_empty_def)

text \<open>
  C6 as first stated has every second call send no query. After a registration that
  found no type the identifiers are still \<open>None\<close>, and the second call asks again.
\<close>

theorem register_type_requeries_counterexample:
  "executed (snd (fst (register_type (fst (fst (register_type pet_field empty_client)))
                                     (snd (fst (register_type pet_field empty_client))))))
     = [(''_pet'', ''pet''), (''_pet'', ''pet'')]"
  by (simp add: register_type_def register_oid_def get_type_OID_def type_name_pet
        empty_client_def no_types_def)
     (simp add: pet_field_def)

theorem register_type_idempotent_witness:
  "register_type pet_field empty_client =
     ((pet_field, empty_client\<lparr>executed := [(''_pet'', ''pet'')],
         warnings := [''Type '' @ [CHR 0x60] @ ''pet'' @ [CHR 0x60] @ '' not found in the database.'']\<rparr>), None)
   \<and> register_type pet_field (empty_client\<lparr>fetch := (\<lambda>names. [16500, 16499])\<rparr>) =
     ((pet_field\<lparr>type_oid := Some 16500, type_array_oid := Some 16499\<rparr>,
       empty_client\<lparr>fetch := (\<lambda>names. [16500, 16499]), executed := [(''_pet'', ''pet'')],
          registry := [(''PET'', Some 16500), (''PETARRAY'', Some 16499)]\<rparr>), None)
   \<and> executed (snd (fst (register_type (pet_field\<lparr>type_oid := Some 16500, type_array_oid := Some 16499\<rparr>)
        (empty_client\<lparr>fetch := (\<lambda>names. [16500, 16499]), executed := [(''_pet'', ''pet'')]\<rparr>))))
      = [(''_pet'', ''pet'')]"
proof -
  have n: "type_oid pet_field = None" "type_array_oid pet_field = None"
    by (simp_all add: pet_field_def)
  have u: "upper ''pet'' = ''PET''"
    by (simp add: upper_def upper_char_def)
  have a: "register_type pet_field empty_client =
     ((pet_field, empty_client\<lparr>executed := [(''_pet'', ''pet'')],
         warnings := [''Type '' @ [CHR 0x60] @ ''pet'' @ [CHR 0x60] @ '' not found in the database.'']\<rparr>), None)"
    using register_type_idempotent [of pet_field empty_client 0 0, THEN conjunct2, THEN conjunct2, THEN conjunct2] n
    by (simp add: type_name_pet) (simp add: empty_client_def no_types_def)
  have b: "register_type pet_field (empty_client\<lparr>fetch := (\<lambda>names. [16500, 16499])\<rparr>) =
     ((pet_field\<lparr>type_oid := Some 16500, type_array_oid := Some 16499\<rparr>,
       empty_client\<lparr>fetch := (\<lambda>names. [16500, 16499]), executed := [(''_pet'', ''pet'')],
          registry := [(''PET'', Some 16500), (''PETARRAY'', Some 16499)]\<rparr>), None)"
    using register_type_idempotent [of pet_field "empty_client\<lparr>fetch := (\<lambda>names. [16500, 16499])\<rparr>" 16500 16499,
        THEN conjunct2, THEN conjunct1] n
    by (simp add: type_name_pet u) (simp add: empty_client_def)
  have c: "executed (snd (fst (register_type (pet_field\<lparr>type_oid := Some 16500, type_array_oid := Some 16499\<rparr>)
        (empty_client\<lparr>fetch := (\<lambda>names. [16500, 16499]), executed := [(''_pet'', ''pet'')]\<rparr>))))
      = [(''_pet'', ''pet'')]"
    using register_type_idempotent [of "pet_field\<lparr>type_oid := Some 16500, type_array_oid := Some 16499\<rparr>"
        "empty_client\<lparr>fetch := (\<lambda>names. [16500, 16499]), executed := [(''_pet'', ''pet'')]\<rparr>" 0 0,
        THEN conjunct2, THEN conjunct2, THEN conjunct1]
    by simp
  from a b c show ?thesis by blast
qed

subsection \<open>None is NULL\<close>

text \<open>
  C5. Called with \<open>None\<close>, the Array, OneOf, Bit, IP, Cidr and MacAddress fields store
  \<open>None\<close> whatever their normaliser would do, and \<open>None\<close> is not the \<open>empty\<close> sentinel.
  bloom's \<open>Time.__call__\<close> has no such guard: \<open>None\<close> is no expression, no Arrow and no
  string, so it is handed to \<open>_get_arrow\<close>, and the field then holds the Arrow that
  comes back, or the call raises; it never holds \<open>None\<close>.
\<close>

theorem None_is_NULL:
  "Array_call af (Given PNone) = Inr (af\<lparr>array_value := Given None\<rparr>, Given None)
   \<and> OneOf_call ef (Given PNone) = Inr (ef\<lparr>oneof_value := Given PNone\<rparr>, Given PNone)
   \<and> Bit_call BitArray bf (Given PNone) = Inr (bf\<lparr>field_value := Given None\<rparr>, Given None)
   \<and> IP_call IPAddress ipf (Given PNone) = Inr (ipf\<lparr>ip_value := Given None\<rparr>, Given None)
   \<and> Cidr_call IPNetwork cf (Given PNone) = Inr (cf\<lparr>field_value := Given None\<rparr>, Given None)
   \<and> MacAddress_call EUI mf (Given PNone) = Inr (mf\<lparr>field_value := Given None\<rparr>, Given None)
   \<and> Given None \<noteq> (Empty :: 'z option arg)
   \<and> Time_call dateparser_parse get_arrow tf (Given (TPy PNone)) =
       (case get_arrow (Inr PNone) of
          Inl e \<Rightarrow> Inl e
        | Inr t \<Rightarrow> Inr (tf\<lparr>time_arrow := Some t, time_value := Given (VArrow t)\<rparr>, Given (VArrow t)))
   \<and> Time_call dateparser_parse get_arrow tf (Given (TPy PNone)) \<noteq> Inr (tf', Given VNone)"
  by (auto simp: Array_call_def OneOf_call_def Bit_call_def IP_call_def IP_current_def Cidr_call_def
      MacAddress_call_def Time_call_def set_value_def Let_def split: sum.splits)

subsection \<open>Placeholders and parameters\<close>


















lemma subnodes_self: "n \<in> set (subnodes n)"
  by (cases n rule: subnodes.cases) auto




lemma str_int_digits: "str_int 1 = ''1''" "str_int 2 = ''2''"
  by (simp_all add: str_int_def dec_digits.simps digit_char_def)

text \<open>
  C8. \<open>Case(field == 1, 'one', field == 2, 'two', el='three')\<close>, with the field bound to
  table \<open>foo\<close> and column \<open>bar\<close>, renders with its parameters inlined as the text of the
  test; the same tree built by two \<open>when\<close> calls and two \<open>el\<close> calls, the later \<open>el\<close>
  replacing the earlier, renders to the same text. In general a later \<open>el\<close> replaces an
  earlier one, and \<open>when\<close> calls add their pairs in call order, so the builder reaches
  the state the constructor gives.
\<close>

theorem Case_compilation:
  "mogrified (Case_new [(field_eq (Some ''foo'') ''bar'' (PInt 1), Literal (PStr ''one'')),
                        (field_eq (Some ''foo'') ''bar'' (PInt 2), Literal (PStr ''two''))]
                       (Some (Literal (PStr ''three''))) None False)
     = Inr ''CASE WHEN foo.bar = 1 THEN one WHEN foo.bar = 2 THEN two ELSE three END''
   \<and> mogrified
       (Case_el
         (Case_el
           (Case_when
             (Case_when (Case_new [] None None False)
                [(field_eq (Some ''foo'') ''bar'' (PInt 1), Literal (PStr ''one''))])
             [(field_eq (Some ''foo'') ''bar'' (PInt 2), Literal (PStr ''two''))])
           (Literal (PStr ''four'')))
         (Literal (PStr ''three'')))
     = Inr ''CASE WHEN foo.bar = 1 THEN one WHEN foo.bar = 2 THEN two ELSE three END''
   \<and> Case_el (Case_el cb e1) e2 = Case_el cb e2
   \<and> Case_when (Case_when cb ps1) ps2 = Case_when cb (ps1 @ ps2)
   \<and> Case_el (Case_when (Case_when (Case_new [] None a u) ps1) ps2) e = Case_new (ps1 @ ps2) (Some e) a u"
proof -
  have one: "mogrified (Case_new [(field_eq (Some ''foo'') ''bar'' (PInt 1), Literal (PStr ''one'')),
                        (field_eq (Some ''foo'') ''bar'' (PInt 2), Literal (PStr ''two''))]
                       (Some (Literal (PStr ''three''))) None False)
     = Inr ''CASE WHEN foo.bar = 1 THEN one WHEN foo.bar = 2 THEN two ELSE three END''"
    by (simp add: mogrified_def case_node_def Case_new_def field_eq_def field_text_def
          with_alias_def paren_def py_str_def str_int_digits)
  have build: "Case_el (Case_when (Case_when (Case_new [] None a u) ps1) ps2) e
      = Case_new (ps1 @ ps2) (Some e) a u" for a u ps1 ps2 e
    by (simp add: Case_el_def Case_when_def Case_new_def)
  have last: "Case_el (Case_el cb e1) e2 = Case_el cb e2"
    by (simp add: Case_el_def)
  have whens: "Case_when (Case_when cb ps1) ps2 = Case_when cb (ps1 @ ps2)"
    by (simp add: Case_when_def)
  have two: "mogrified
       (Case_el
         (Case_el
           (Case_when
             (Case_when (Case_new [] None None False)
                [(field_eq (Some ''foo'') ''bar'' (PInt 1), Literal (PStr ''one''))])
             [(field_eq (Some ''foo'') ''bar'' (PInt 2), Literal (PStr ''two''))])
           (Literal (PStr ''four'')))
         (Literal (PStr ''three'')))
     = Inr ''CASE WHEN foo.bar = 1 THEN one WHEN foo.bar = 2 THEN two ELSE three END''"
    by (simp add: mogrified_def case_node_def Case_new_def Case_el_def Case_when_def field_eq_def
          field_text_def with_alias_def paren_def py_str_def str_int_digits)
  from one two last whens build show ?thesis by blast
qed

end
